theory Spec2Isabelle
  imports Complex_Main
begin

section \<open>Shapes and the shape check\<close>

text \<open>
  A shape is a Python tuple of dimension sizes, here a list of naturals.
  \<^verbatim>\<open>_shape_is_broadcastable\<close> reverses both shapes, zips them (the zip stops at
  the shorter one) and asks every pair to be equal or to hold a 1.
\<close>

definition dims_ok :: "nat \<times> nat \<Rightarrow> bool" where
  "dims_ok p = (case p of (m, n) \<Rightarrow> (m = n) \<or> (m = 1) \<or> (n = 1))"

definition shape_is_broadcastable :: "nat list \<Rightarrow> nat list \<Rightarrow> bool" where
  "shape_is_broadcastable shape_1 shape_2 =
     list_all dims_ok (zip (rev shape_1) (rev shape_2))"

text \<open>
  The rule in the words of the specification: the shorter shape is padded with
  dimensions of size 1 on the left until both have the same length, and then
  every position must hold two equal sizes or a 1.
\<close>

definition pad_left :: "nat \<Rightarrow> nat list \<Rightarrow> nat list" where
  "pad_left n s = replicate (n - length s) 1 @ s"

definition spec_shapes_compatible :: "nat list \<Rightarrow> nat list \<Rightarrow> bool" where
  "spec_shapes_compatible s1 s2 =
     (let n = max (length s1) (length s2)
      in list_all dims_ok (zip (pad_left n s1) (pad_left n s2)))"

section \<open>Exceptions and strings\<close>

text \<open>
  \<^verbatim>\<open>TypeError\<close> and \<^verbatim>\<open>ValueError\<close> are the two exceptions the module raises
  itself (the specification calls them InvalidArgument and WeightingUnavailable).
  \<^verbatim>\<open>ValueError\<close> is also what a product of arrays that do not fit and an
  assignment of an array of the wrong shape to a cube raise.
  \<^verbatim>\<open>LoadError\<close> stands for whatever \<^verbatim>\<open>iris.load_cube\<close> raises on a source it
  cannot load; it carries the path.
\<close>

datatype exc = TypeError string | ValueError string | LoadError string

definition apos :: string where
  "apos = [CHR 0x27]"

definition quoted :: "string \<Rightarrow> string" where
  "quoted s = apos @ s @ apos"

text \<open>\<^verbatim>\<open>sep.join(xs)\<close>.\<close>

fun join :: "string \<Rightarrow> string list \<Rightarrow> string" where
  "join sep [] = []"
| "join sep [x] = x"
| "join sep (x # y # ys) = x @ sep @ join sep (y # ys)"

text \<open>Decimal digits of a natural, and the \<^verbatim>\<open>repr\<close> of a tuple of them.\<close>

fun str_nat :: "nat \<Rightarrow> string" where
  "str_nat n =
     (if n < 10 then [''0123456789'' ! n]
      else str_nat (n div 10) @ [''0123456789'' ! (n mod 10)])"

declare str_nat.simps [simp del]

definition str_shape :: "nat list \<Rightarrow> string" where
  "str_shape s =
     (case s of
        [] \<Rightarrow> ''()''
      | [d] \<Rightarrow> ''('' @ str_nat d @ '',)''
      | _ \<Rightarrow> ''('' @ join '', '' (map str_nat s) @ '')'')"

section \<open>Arrays\<close>

text \<open>
  An array has a shape, an element type and its elements in row-major order.
  Elements are exact rationals: rounding, not-a-number and masks are left
  out. Three element types are kept: the 64-bit integer and the floats of 32
  and of 64 bits.
\<close>

datatype dtype = Int64 | Float32 | Float64

record ndarray =
  shape :: "nat list"
  dtype :: dtype
  elems :: "rat list"

definition wf_array :: "ndarray \<Rightarrow> bool" where
  "wf_array a = (length (elems a) = prod_list (shape a))"

text \<open>
  The shape of a binary operation on two arrays: aligned at the last
  dimension, a dimension of size 1 is stretched to the other one, and the
  dimensions that only the longer shape has are kept. Shapes that do not fit
  give no result.
\<close>

fun broadcast_rev :: "nat list \<Rightarrow> nat list \<Rightarrow> nat list option" where
  "broadcast_rev [] ns = Some ns"
| "broadcast_rev (m # ms) [] = Some (m # ms)"
| "broadcast_rev (m # ms) (n # ns) =
     (if m = n \<or> n = 1 then map_option ((#) m) (broadcast_rev ms ns)
      else if m = 1 then map_option ((#) n) (broadcast_rev ms ns)
      else None)"

definition broadcast_shapes :: "nat list \<Rightarrow> nat list \<Rightarrow> nat list option" where
  "broadcast_shapes s1 s2 = map_option rev (broadcast_rev (rev s1) (rev s2))"

text \<open>
  Row-major addressing: \<open>ravel\<close> turns an index tuple into a position in
  \<open>elems\<close>, \<open>unravel\<close> a position into the index tuple. \<open>source_index s idx\<close>
  is the index at which an operand of shape \<open>s\<close> is read for the result index
  \<open>idx\<close>: the leading components that \<open>s\<close> does not have are dropped, and a
  dimension of size 1 is always read at 0.
\<close>

fun ravel :: "nat list \<Rightarrow> nat list \<Rightarrow> nat" where
  "ravel (d # ds) (i # js) = i * prod_list ds + ravel ds js"
| "ravel _ _ = 0"

fun unravel :: "nat list \<Rightarrow> nat \<Rightarrow> nat list" where
  "unravel [] k = []"
| "unravel (d # ds) k = (k div prod_list ds) # unravel ds (k mod prod_list ds)"

definition source_index :: "nat list \<Rightarrow> nat list \<Rightarrow> nat list" where
  "source_index s idx =
     map (\<lambda>(d, i). if d = 1 then 0 else i) (zip s (drop (length idx - length s) idx))"

definition item :: "ndarray \<Rightarrow> nat list \<Rightarrow> rat" where
  "item a idx = elems a ! ravel (shape a) (source_index (shape a) idx)"

text \<open>
  The element type of a binary operation on two arrays: the common type when
  both agree, the 64-bit float otherwise (a 64-bit integer does not fit the
  32-bit float). With a Python float in place of one array an integer array
  gives 64-bit floats and a float array keeps its type.
\<close>

definition promote :: "dtype \<Rightarrow> dtype \<Rightarrow> dtype" where
  "promote d1 d2 = (if d1 = d2 then d1 else Float64)"

definition with_python_float :: "dtype \<Rightarrow> dtype" where
  "with_python_float d = (case d of Int64 \<Rightarrow> Float64 | Float32 \<Rightarrow> Float32 | Float64 \<Rightarrow> Float64)"

definition np_binary :: "(rat \<Rightarrow> rat \<Rightarrow> rat) \<Rightarrow> ndarray \<Rightarrow> ndarray \<Rightarrow> exc + ndarray" where
  "np_binary f a b =
     (case broadcast_shapes (shape a) (shape b) of
        None \<Rightarrow> Inl (ValueError ''operands could not be broadcast together'')
      | Some s \<Rightarrow>
          Inr \<lparr>shape = s, dtype = promote (dtype a) (dtype b),
               elems = map (\<lambda>k. f (item a (unravel s k)) (item b (unravel s k)))
                         [0..<prod_list s]\<rparr>)"

text \<open>\<^verbatim>\<open>a * b\<close> and \<^verbatim>\<open>a + b\<close> on arrays.\<close>

definition np_multiply :: "ndarray \<Rightarrow> ndarray \<Rightarrow> exc + ndarray" where
  "np_multiply = np_binary (*)"

definition np_add :: "ndarray \<Rightarrow> ndarray \<Rightarrow> exc + ndarray" where
  "np_add = np_binary (+)"

text \<open>
  \<^verbatim>\<open>a / c\<close> and \<^verbatim>\<open>c - a\<close> for a Python float \<open>c\<close>: the shape stays, the
  result is a float array of the type that \<open>with_python_float\<close> gives.
\<close>

definition true_divide_scalar :: "ndarray \<Rightarrow> rat \<Rightarrow> ndarray" where
  "true_divide_scalar a c =
     a\<lparr>dtype := with_python_float (dtype a), elems := map (\<lambda>x. x / c) (elems a)\<rparr>"

definition scalar_subtract :: "rat \<Rightarrow> ndarray \<Rightarrow> ndarray" where
  "scalar_subtract c a =
     a\<lparr>dtype := with_python_float (dtype a), elems := map (\<lambda>x. c - x) (elems a)\<rparr>"

text \<open>An array of shape \<open>s\<close> that repeats \<open>a\<close> along the stretched dimensions.\<close>

definition broadcast_to :: "ndarray \<Rightarrow> nat list \<Rightarrow> ndarray" where
  "broadcast_to a s = a\<lparr>shape := s, elems := map (\<lambda>k. item a (unravel s k)) [0..<prod_list s]\<rparr>"

section \<open>Cubes and the resolution of the land fraction\<close>

text \<open>
  A cube is read through \<^verbatim>\<open>var_name\<close>, \<^verbatim>\<open>shape\<close> and \<^verbatim>\<open>core_data()\<close> and
  written through \<^verbatim>\<open>data\<close>. Its shape is the shape of its data array, and
  lazy and realised data are not told apart.
\<close>

record cube =
  var_name :: string
  data :: ndarray

definition cube_shape :: "cube \<Rightarrow> nat list" where
  "cube_shape c = shape (data c)"

definition core_data :: "cube \<Rightarrow> ndarray" where
  "core_data c = data c"

text \<open>
  \<^verbatim>\<open>fx_files\<close> is a dict from variable names to paths, iterated in insertion
  order: a list of pairs. A path is \<^verbatim>\<open>None\<close> or a string, and both \<^verbatim>\<open>None\<close>
  and the empty string are false in \<^verbatim>\<open>if not fx_path\<close>.

  \<^verbatim>\<open>iris.load_cube\<close> is a parameter: \<open>load path\<close> is the cube read from the
  path, or \<open>None\<close> when loading raises. The paths handed to it are recorded in
  call order next to the result.
\<close>

type_synonym fx_files = "(string \<times> string option) list"

type_synonym loader = "string \<Rightarrow> cube option"

definition file_not_found :: "string \<Rightarrow> string" where
  "file_not_found fx_var = ''File for '' @ quoted fx_var @ '' not found.''"

definition not_broadcastable :: "string \<Rightarrow> cube \<Rightarrow> cube \<Rightarrow> string" where
  "not_broadcastable fx_var fx_cube c =
     ''Cube '' @ quoted fx_var @ '' with shape '' @ str_shape (cube_shape fx_cube) @
     '' not broadcastable to cube '' @ quoted (var_name c) @ '' with shape '' @
     str_shape (cube_shape c) @ ''.''"

definition cannot_calculate :: "string \<Rightarrow> string" where
  "cannot_calculate fx_var =
     ''Cannot calculate land fraction from '' @ quoted fx_var @ '', expected '' @
     quoted ''sftlf'' @ '' or '' @ quoted ''sftof'' @ ''.''"

text \<open>
  The \<^verbatim>\<open>for\<close> loop of \<^verbatim>\<open>_get_land_fraction\<close> over the entries that are left,
  with the errors and the loaded paths so far. Each \<^verbatim>\<open>continue\<close> is a
  recursive call, each \<^verbatim>\<open>break\<close> returns the fraction, and running out of
  entries is the \<^verbatim>\<open>else\<close> of the loop.
\<close>

fun land_fraction_loop ::
  "loader \<Rightarrow> cube \<Rightarrow> fx_files \<Rightarrow> string list \<Rightarrow> string list \<Rightarrow>
     string list \<times> (exc + ndarray option \<times> string list)" where
  "land_fraction_loop load c [] errors loads = (loads, Inr (None, errors))"
| "land_fraction_loop load c ((fx_var, fx_path) # rest) errors loads =
     (case fx_path of
        None \<Rightarrow> land_fraction_loop load c rest (errors @ [file_not_found fx_var]) loads
      | Some path \<Rightarrow>
          if path = [] then
            land_fraction_loop load c rest (errors @ [file_not_found fx_var]) loads
          else
            (case load path of
               None \<Rightarrow> (loads @ [path], Inl (LoadError path))
             | Some fx_cube \<Rightarrow>
                 if \<not> shape_is_broadcastable (cube_shape fx_cube) (cube_shape c) then
                   land_fraction_loop load c rest
                     (errors @ [not_broadcastable fx_var fx_cube c]) (loads @ [path])
                 else if fx_var = ''sftlf'' then
                   (loads @ [path],
                    Inr (Some (true_divide_scalar (core_data fx_cube) 100), errors))
                 else if fx_var = ''sftof'' then
                   (loads @ [path],
                    Inr (Some (scalar_subtract 1 (true_divide_scalar (core_data fx_cube) 100)),
                         errors))
                 else
                   land_fraction_loop load c rest
                     (errors @ [cannot_calculate fx_var]) (loads @ [path])))"

definition get_land_fraction ::
  "loader \<Rightarrow> cube \<Rightarrow> fx_files \<Rightarrow> string list \<times> (exc + ndarray option \<times> string list)" where
  "get_land_fraction load c fx_files =
     land_fraction_loop load c fx_files
       (if fx_files = [] then [''No fx files given.''] else []) []"

section \<open>Weighting\<close>

text \<open>
  The cube is an object that the function changes in place and returns, so
  cubes live in a heap and are passed by reference. The world also keeps the
  paths loaded so far and the messages given to \<^verbatim>\<open>logger.debug\<close>.
\<close>

type_synonym ref = nat

record world =
  heap :: "ref \<Rightarrow> cube"
  loaded :: "string list"
  debug_log :: "string list"

text \<open>
  \<^verbatim>\<open>cube.data = d\<close> for the cube behind \<open>r\<close>. The setter of the cube library
  raises \<^verbatim>\<open>ValueError\<close> for an array whose shape is not the shape of the cube;
  the one reshape it lets through is a cube of shape \<open>()\<close> that takes an array
  of shape \<open>(1,)\<close>. The element type of the array is not looked at.
\<close>

definition require_shape_msg :: "nat list \<Rightarrow> nat list \<Rightarrow> string" where
  "require_shape_msg old new =
     ''Require data with shape '' @ str_shape old @ '', got '' @ str_shape new @ ''.''"

definition set_data :: "world \<Rightarrow> ref \<Rightarrow> ndarray \<Rightarrow> exc + world" where
  "set_data w r d =
     (if cube_shape (heap w r) \<noteq> shape d \<and>
         (cube_shape (heap w r) \<noteq> [] \<or> shape d \<noteq> [1])
      then Inl (ValueError (require_shape_msg (cube_shape (heap w r)) (shape d)))
      else Inr (w\<lparr>heap := (heap w)(r := (heap w r)\<lparr>data := d\<rparr>)\<rparr>))"

text \<open>\<^verbatim>\<open>cube.data = a * b\<close>: the product is computed, then assigned.\<close>

definition assign_product :: "world \<Rightarrow> ref \<Rightarrow> ndarray \<Rightarrow> ndarray \<Rightarrow> exc + world" where
  "assign_product w r a b =
     (case np_multiply a b of Inl e \<Rightarrow> Inl e | Inr d \<Rightarrow> set_data w r d)"

definition type_error_msg :: "string \<Rightarrow> string" where
  "type_error_msg area_type =
     ''Expected '' @ quoted ''land'' @ '' or '' @ quoted ''sea'' @
     '' for area_type, got '' @ quoted area_type"

definition value_error_msg :: "string list \<Rightarrow> string" where
  "value_error_msg errors =
     ''Weighting with land/sea fraction is not possible, the following errors occured: '' @
     join '' '' errors"

definition debug_msg :: "string \<Rightarrow> string \<Rightarrow> string list \<Rightarrow> string" where
  "debug_msg name area_type errors =
     ''Weighting of '' @ quoted name @ '' with '' @ quoted area_type @
     '' fraction not possible because of the following problems: '' @ join '' '' errors"

text \<open>
  \<^verbatim>\<open>weighting_landsea_fraction\<close>. The result is the world after the call and
  either the exception raised or the reference returned. The two assignments
  are two \<^verbatim>\<open>if\<close> statements one after the other, both multiplying the
  \<^verbatim>\<open>core_data\<close> read before the first.
\<close>

definition weighting_landsea_fraction ::
  "loader \<Rightarrow> world \<Rightarrow> ref \<Rightarrow> fx_files \<Rightarrow> string \<Rightarrow> bool \<Rightarrow> world \<times> (exc + ref)" where
  "weighting_landsea_fraction load w r fx_files area_type strict =
     (if area_type \<noteq> ''land'' \<and> area_type \<noteq> ''sea'' then
        (w, Inl (TypeError (type_error_msg area_type)))
      else
        (case get_land_fraction load (heap w r) fx_files of
           (loads, Inl e) \<Rightarrow> (w\<lparr>loaded := loaded w @ loads\<rparr>, Inl e)
         | (loads, Inr (land_fraction, errors)) \<Rightarrow>
             let w1 = w\<lparr>loaded := loaded w @ loads\<rparr> in
             (case land_fraction of
                None \<Rightarrow>
                  if strict then (w1, Inl (ValueError (value_error_msg errors)))
                  else
                    (w1\<lparr>debug_log := debug_log w1 @
                          [debug_msg (var_name (heap w r)) area_type errors]\<rparr>,
                     Inr r)
              | Some lf \<Rightarrow>
                  let cd = core_data (heap w r) in
                  (case (if area_type = ''land''
                         then assign_product w1 r cd lf
                         else Inr w1) of
                     Inl e \<Rightarrow> (w1, Inl e)
                   | Inr w2 \<Rightarrow>
                       (case (if area_type = ''sea''
                              then assign_product w2 r cd (scalar_subtract 1 lf)
                              else Inr w2) of
                          Inl e \<Rightarrow> (w2, Inl e)
                        | Inr w3 \<Rightarrow> (w3, Inr r))))))"

section \<open>Stretching one shape to another\<close>

text \<open>
  \<open>broadcastable_to src dst\<close>: an array of shape \<open>src\<close> can be stretched to
  the shape \<open>dst\<close>. It has no more dimensions than \<open>dst\<close>, and each of its
  dimensions, aligned at the last one, is 1 or the size \<open>dst\<close> has there.
\<close>

definition stretches_to :: "nat \<times> nat \<Rightarrow> bool" where
  "stretches_to p = (case p of (m, n) \<Rightarrow> (m = n) \<or> (m = 1))"

definition broadcastable_to :: "nat list \<Rightarrow> nat list \<Rightarrow> bool" where
  "broadcastable_to src dst =
     (length src \<le> length dst \<and> list_all stretches_to (zip (rev src) (rev dst)))"

section \<open>Sample inputs\<close>

text \<open>
  A loader that knows five sources: a land fraction of shape \<open>(1, 1)\<close> filled
  with 50, a sea fraction of shape \<open>(2, 3)\<close>, a field of shape \<open>(4,)\<close>, a
  land fraction of shape \<open>(2, 2, 3)\<close> and a land fraction of shape \<open>(3,)\<close> in
  32-bit floats. Every other path fails to load.
\<close>

definition sample_load :: loader where
  "sample_load path =
     (if path = ''sftlf.nc'' then
        Some \<lparr>var_name = ''sftlf'',
              data = \<lparr>shape = [1, 1], dtype = Float64, elems = [50]\<rparr>\<rparr>
      else if path = ''sftof.nc'' then
        Some \<lparr>var_name = ''sftof'',
              data = \<lparr>shape = [2, 3], dtype = Float64,
                      elems = [0, 10, 20, 30, 40, 100]\<rparr>\<rparr>
      else if path = ''four.nc'' then
        Some \<lparr>var_name = ''sftlf'',
              data = \<lparr>shape = [4], dtype = Float64, elems = [0, 10, 20, 30]\<rparr>\<rparr>
      else if path = ''stack.nc'' then
        Some \<lparr>var_name = ''sftlf'',
              data = \<lparr>shape = [2, 2, 3], dtype = Float64,
                      elems = [0, 10, 20, 30, 40, 50, 50, 60, 70, 80, 90, 100]\<rparr>\<rparr>
      else if path = ''single.nc'' then
        Some \<lparr>var_name = ''sftlf'',
              data = \<lparr>shape = [3], dtype = Float32, elems = [0, 50, 100]\<rparr>\<rparr>
      else None)"

text \<open>
  A world with nothing loaded or logged yet. Reference 0 is a cube of 64-bit
  floats of shape \<open>(2, 3)\<close>, reference 2 a cube of 32-bit floats and every
  other reference an integer cube, both of the same shape.
\<close>

definition sample_world :: world where
  "sample_world =
     \<lparr>heap = (\<lambda>r. if r = 0
                  then \<lparr>var_name = ''gpp'',
                        data = \<lparr>shape = [2, 3], dtype = Float64,
                                elems = [1, 2, 3, 4, 5, 6]\<rparr>\<rparr>
                  else if r = 2
                  then \<lparr>var_name = ''npp'',
                        data = \<lparr>shape = [2, 3], dtype = Float32,
                                elems = [1, 2, 3, 4, 5, 6]\<rparr>\<rparr>
                  else \<lparr>var_name = ''nbp'',
                        data = \<lparr>shape = [2, 3], dtype = Int64,
                                elems = [1, 2, 3, 4, 5, 6]\<rparr>\<rparr>),
      loaded = [], debug_log = []\<rparr>"

section \<open>Properties of the shape check\<close>

lemma list_all_dims_ok_replicate_one:
  "list_all dims_ok (zip (replicate k 1) ys)"
proof (induction k arbitrary: ys)
  case 0
  then show ?case by simp
next
  case (Suc k)
  then show ?case by (cases ys) (simp_all add: dims_ok_def)
qed

lemma dims_ok_swap: "dims_ok (m, n) = dims_ok (n, m)"
  by (auto simp: dims_ok_def)

lemma list_all_dims_ok_swap:
  "list_all dims_ok (zip xs ys) = list_all dims_ok (zip ys xs)"
proof (induction xs arbitrary: ys)
  case Nil
  then show ?case by simp
next
  case (Cons x xs)
  then show ?case by (cases ys) (simp_all add: dims_ok_swap)
qed

lemma shape_is_broadcastable_sym:
  "shape_is_broadcastable s1 s2 = shape_is_broadcastable s2 s1"
  unfolding shape_is_broadcastable_def by (rule list_all_dims_ok_swap)

lemma spec_shapes_compatible_sym:
  "spec_shapes_compatible s1 s2 = spec_shapes_compatible s2 s1"
  unfolding spec_shapes_compatible_def Let_def
  by (simp add: list_all_dims_ok_swap max.commute)

lemma zip_take_left: "zip xs (take (length xs) ys) = zip xs ys"
proof (induction xs arbitrary: ys)
  case Nil
  then show ?case by simp
next
  case (Cons x xs)
  then show ?case by (cases ys) simp_all
qed

lemma zip_rev_shorter:
  assumes "length s1 \<le> length s2"
  shows "zip (rev s1) (rev s2) = rev (zip s1 (drop (length s2 - length s1) s2))"
proof -
  have "zip (rev s1) (rev s2) = zip (rev s1) (take (length s1) (rev s2))"
    using zip_take_left [of "rev s1" "rev s2"] by simp
  also have "take (length s1) (rev s2) = rev (drop (length s2 - length s1) s2)"
    by (simp add: take_rev)
  also have "zip (rev s1) \<dots> = rev (zip s1 (drop (length s2 - length s1) s2))"
    using assms by (simp add: zip_rev)
  finally show ?thesis .
qed

lemma check_eq_spec_shorter:
  assumes "length s1 \<le> length s2"
  shows "shape_is_broadcastable s1 s2 = spec_shapes_compatible s1 s2"
proof -
  let ?k = "length s2 - length s1"
  have pad1: "pad_left (max (length s1) (length s2)) s1 = replicate ?k 1 @ s1"
    using assms by (simp add: pad_left_def max_def)
  have pad2: "pad_left (max (length s1) (length s2)) s2 = take ?k s2 @ drop ?k s2"
    using assms by (simp add: pad_left_def max_def)
  have "zip (replicate ?k 1 @ s1) (take ?k s2 @ drop ?k s2)
          = zip (replicate ?k 1) (take ?k s2) @ zip s1 (drop ?k s2)"
    using assms by (intro zip_append) simp
  moreover have "list_all dims_ok (zip (replicate ?k 1) (take ?k s2))"
    by (rule list_all_dims_ok_replicate_one)
  ultimately have "spec_shapes_compatible s1 s2 = list_all dims_ok (zip s1 (drop ?k s2))"
    unfolding spec_shapes_compatible_def Let_def pad1 pad2
    by (simp only: list_all_append simp_thms)
  moreover have "shape_is_broadcastable s1 s2 = list_all dims_ok (zip s1 (drop ?k s2))"
    unfolding shape_is_broadcastable_def zip_rev_shorter [OF assms] by simp
  ultimately show ?thesis by simp
qed

lemma shape_check_eq_spec:
  "shape_is_broadcastable s1 s2 = spec_shapes_compatible s1 s2"
proof (cases "length s1 \<le> length s2")
  case True
  then show ?thesis by (rule check_eq_spec_shorter)
next
  case False
  then have "length s2 \<le> length s1" by simp
  then have "shape_is_broadcastable s2 s1 = spec_shapes_compatible s2 s1"
    by (rule check_eq_spec_shorter)
  then show ?thesis
    using shape_is_broadcastable_sym [of s1 s2] spec_shapes_compatible_sym [of s1 s2] by simp
qed

lemma broadcast_rev_defined:
  "(broadcast_rev ms ns \<noteq> None) = list_all dims_ok (zip ms ns)"
  by (induction ms ns rule: broadcast_rev.induct) (auto simp: dims_ok_def)

lemma broadcast_shapes_defined:
  "(broadcast_shapes s1 s2 \<noteq> None) = shape_is_broadcastable s1 s2"
  using broadcast_rev_defined [of "rev s1" "rev s2"]
  by (cases "broadcast_rev (rev s1) (rev s2)")
     (simp_all add: broadcast_shapes_def shape_is_broadcastable_def)

lemma shape_is_broadcastable_append:
  "shape_is_broadcastable (p @ s) s"
proof -
  have "zip (rev s @ rev p) (rev s) = zip (rev s) (rev s)"
    by (simp add: zip_append1)
  moreover have "list_all dims_ok (zip xs xs)" for xs :: "nat list"
    by (induction xs) (simp_all add: dims_ok_def)
  ultimately show ?thesis by (simp add: shape_is_broadcastable_def)
qed

section \<open>Row-major addressing\<close>

lemma length_unravel: "length (unravel s k) = length s"
  by (induction s arbitrary: k) simp_all

lemma unravel_in_bounds:
  "k < prod_list s \<Longrightarrow> list_all2 (<) (unravel s k) s"
proof (induction s arbitrary: k)
  case Nil
  then show ?case by simp
next
  case (Cons d ds)
  from Cons.prems have pos: "0 < prod_list ds"
    by (cases "prod_list ds = 0") simp_all
  from Cons.prems have "k div prod_list ds < d"
    using pos by (simp add: less_mult_imp_div_less mult.commute)
  moreover have "k mod prod_list ds < prod_list ds"
    using pos by simp
  ultimately show ?case
    using Cons.IH by simp
qed

lemma ravel_in_bounds:
  "list_all2 (<) js s \<Longrightarrow> ravel s js < prod_list s"
proof (induction js s rule: list_all2_induct)
  case Nil
  then show ?case by simp
next
  case (Cons i js d ds)
  have "i * prod_list ds + ravel ds js < i * prod_list ds + prod_list ds"
    using Cons.IH by simp
  also have "\<dots> = Suc i * prod_list ds" by simp
  also have "\<dots> \<le> d * prod_list ds"
    using Cons.hyps(1) by (intro mult_le_mono1) simp
  finally show ?case by simp
qed

lemma ravel_unravel: "k < prod_list s \<Longrightarrow> ravel s (unravel s k) = k"
proof (induction s arbitrary: k)
  case Nil
  then show ?case by simp
next
  case (Cons d ds)
  from Cons.prems have pos: "0 < prod_list ds"
    by (cases "prod_list ds = 0") simp_all
  then have "ravel ds (unravel ds (k mod prod_list ds)) = k mod prod_list ds"
    by (intro Cons.IH) simp
  then show ?case by simp
qed

lemma source_index_same:
  "list_all2 (<) js s \<Longrightarrow> source_index s js = js"
proof -
  assume a: "list_all2 (<) js s"
  then have len: "length js = length s" by (rule list_all2_lengthD)
  have "map (\<lambda>(d, i). if d = 1 then 0 else i) (zip s js) = js"
    using a by (induction js s rule: list_all2_induct) auto
  then show ?thesis by (simp add: source_index_def len)
qed

lemma item_same_shape:
  "k < prod_list (shape a) \<Longrightarrow> item a (unravel (shape a) k) = elems a ! k"
  by (simp add: item_def source_index_same unravel_in_bounds ravel_unravel)

lemma broadcast_to_same_shape:
  assumes "wf_array a"
  shows "broadcast_to a (shape a) = a"
proof -
  have "map (\<lambda>k. item a (unravel (shape a) k)) [0..<prod_list (shape a)] = elems a"
    using assms by (intro nth_equalityI) (simp_all add: wf_array_def item_same_shape)
  then show ?thesis by (simp add: broadcast_to_def)
qed

lemma broadcast_rev_same: "broadcast_rev ms ms = Some ms"
  by (induction ms) simp_all

lemma broadcast_shapes_same: "broadcast_shapes s s = Some s"
  by (simp add: broadcast_shapes_def broadcast_rev_same)

section \<open>Reading operands under broadcasting\<close>

lemma rev_source_index:
  assumes "length s \<le> length idx"
  shows "rev (source_index s idx) =
         map (\<lambda>(d, i). if d = 1 then 0 else i) (zip (rev s) (rev idx))"
  by (simp add: source_index_def rev_map zip_rev_shorter [OF assms])

lemma length_broadcast_rev:
  "broadcast_rev ms ns = Some rs \<Longrightarrow> length rs = max (length ms) (length ns)"
  by (induction ms ns arbitrary: rs rule: broadcast_rev.induct)
     (auto split: if_splits)

lemma clamp_ones_in_bounds:
  "list_all2 (<) idx (s :: nat list) \<Longrightarrow>
   list_all2 (<) (map (\<lambda>(d, i). if d = 1 then 0 else i) (zip s idx)) s"
  by (induction idx s rule: list_all2_induct) auto

lemma broadcast_rev_left_in_bounds:
  "broadcast_rev ms ns = Some rs \<Longrightarrow> list_all2 (<) ridx rs \<Longrightarrow>
   list_all2 (<) (map (\<lambda>(d, i). if d = 1 then 0 else i) (zip ms ridx)) ms"
proof (induction ms ns arbitrary: rs ridx rule: broadcast_rev.induct)
  case (1 ns)
  then show ?case by simp
next
  case (2 m ms)
  then have "list_all2 (<) ridx (m # ms)" by simp
  then show ?case by (rule clamp_ones_in_bounds)
next
  case (3 m ms n ns)
  then show ?case
    by (auto split: if_splits simp: list_all2_Cons2)
qed

lemma broadcast_rev_right_in_bounds:
  "broadcast_rev ms ns = Some rs \<Longrightarrow> list_all2 (<) ridx rs \<Longrightarrow>
   list_all2 (<) (map (\<lambda>(d, i). if d = 1 then 0 else i) (zip ns ridx)) ns"
proof (induction ms ns arbitrary: rs ridx rule: broadcast_rev.induct)
  case (1 ns)
  then have "list_all2 (<) ridx ns" by simp
  then show ?case by (rule clamp_ones_in_bounds)
next
  case (2 m ms)
  then show ?case by simp
next
  case (3 m ms n ns)
  then show ?case
    by (auto split: if_splits simp: list_all2_Cons2)
qed

lemma source_index_in_bounds:
  assumes "broadcast_shapes sa sb = Some s" and "list_all2 (<) idx s"
  shows "list_all2 (<) (source_index sa idx) sa"
    and "list_all2 (<) (source_index sb idx) sb"
proof -
  from assms(1) obtain rs where rs: "broadcast_rev (rev sa) (rev sb) = Some rs" and s: "s = rev rs"
    by (auto simp: broadcast_shapes_def)
  have len: "length idx = length s" using assms(2) by (rule list_all2_lengthD)
  have lens: "length s = max (length sa) (length sb)"
    using length_broadcast_rev [OF rs] s by simp
  have ridx: "list_all2 (<) (rev idx) rs"
    using assms(2) s by (simp add: list_all2_rev1)
  have "list_all2 (<) (rev (source_index sa idx)) (rev sa)"
    using broadcast_rev_left_in_bounds [OF rs ridx] len lens
    by (simp add: rev_source_index)
  then show "list_all2 (<) (source_index sa idx) sa"
    by (simp add: list_all2_rev1)
  have "list_all2 (<) (rev (source_index sb idx)) (rev sb)"
    using broadcast_rev_right_in_bounds [OF rs ridx] len lens
    by (simp add: rev_source_index)
  then show "list_all2 (<) (source_index sb idx) sb"
    by (simp add: list_all2_rev1)
qed

lemma operand_position_in_bounds:
  assumes "broadcast_shapes sa sb = Some s" and "k < prod_list s"
  shows "ravel sa (source_index sa (unravel s k)) < prod_list sa"
    and "ravel sb (source_index sb (unravel s k)) < prod_list sb"
  using source_index_in_bounds [OF assms(1) unravel_in_bounds [OF assms(2)]]
  by (simp_all add: ravel_in_bounds)

lemma shape_scalar_ops [simp]:
  "shape (true_divide_scalar a c) = shape a"
  "shape (scalar_subtract c a) = shape a"
  "dtype (true_divide_scalar a c) = with_python_float (dtype a)"
  "dtype (scalar_subtract c a) = with_python_float (dtype a)"
  by (simp_all add: true_divide_scalar_def scalar_subtract_def)

lemma with_python_float_idem [simp]:
  "with_python_float (with_python_float d) = with_python_float d"
  by (cases d) (simp_all add: with_python_float_def)


lemma wf_scalar_ops [simp]:
  "wf_array (true_divide_scalar a c) = wf_array a"
  "wf_array (scalar_subtract c a) = wf_array a"
  by (simp_all add: true_divide_scalar_def scalar_subtract_def wf_array_def)

lemma item_scalar_subtract:
  assumes "wf_array a" and "broadcast_shapes sa (shape a) = Some s" and "k < prod_list s"
  shows "item (scalar_subtract c a) (unravel s k) = c - item a (unravel s k)"
proof -
  have "ravel (shape a) (source_index (shape a) (unravel s k)) < length (elems a)"
    using operand_position_in_bounds(2) [OF assms(2,3)] assms(1) by (simp add: wf_array_def)
  then show ?thesis
    by (simp add: item_def scalar_subtract_def)
qed

lemma np_binary_result:
  assumes "shape_is_broadcastable (shape a) (shape b)"
  obtains s where "broadcast_shapes (shape a) (shape b) = Some s"
    and "np_binary f a b =
           Inr \<lparr>shape = s, dtype = promote (dtype a) (dtype b),
                elems = map (\<lambda>k. f (item a (unravel s k)) (item b (unravel s k)))
                          [0..<prod_list s]\<rparr>"
proof -
  have "broadcast_shapes (shape a) (shape b) \<noteq> None"
    using assms broadcast_shapes_defined [of "shape a" "shape b"] by blast
  then obtain s where "broadcast_shapes (shape a) (shape b) = Some s" by auto
  then show ?thesis using that by (simp add: np_binary_def)
qed

section \<open>The resolution loop\<close>

text \<open>The branches of one pass through the loop body.\<close>

lemma loop_missing:
  "fx_path = None \<or> fx_path = Some [] \<Longrightarrow>
   land_fraction_loop load c ((fx_var, fx_path) # rest) errors loads =
   land_fraction_loop load c rest (errors @ [file_not_found fx_var]) loads"
  by auto

lemma loop_load_error:
  "path \<noteq> [] \<Longrightarrow> load path = None \<Longrightarrow>
   land_fraction_loop load c ((fx_var, Some path) # rest) errors loads =
   (loads @ [path], Inl (LoadError path))"
  by simp

lemma loop_bad_shape:
  "path \<noteq> [] \<Longrightarrow> load path = Some fx_cube \<Longrightarrow>
   \<not> shape_is_broadcastable (cube_shape fx_cube) (cube_shape c) \<Longrightarrow>
   land_fraction_loop load c ((fx_var, Some path) # rest) errors loads =
   land_fraction_loop load c rest
     (errors @ [not_broadcastable fx_var fx_cube c]) (loads @ [path])"
  by simp

lemma loop_sftlf:
  "path \<noteq> [] \<Longrightarrow> load path = Some fx_cube \<Longrightarrow>
   shape_is_broadcastable (cube_shape fx_cube) (cube_shape c) \<Longrightarrow>
   land_fraction_loop load c ((''sftlf'', Some path) # rest) errors loads =
   (loads @ [path], Inr (Some (true_divide_scalar (core_data fx_cube) 100), errors))"
  by simp

lemma loop_sftof:
  "path \<noteq> [] \<Longrightarrow> load path = Some fx_cube \<Longrightarrow>
   shape_is_broadcastable (cube_shape fx_cube) (cube_shape c) \<Longrightarrow>
   land_fraction_loop load c ((''sftof'', Some path) # rest) errors loads =
   (loads @ [path],
    Inr (Some (scalar_subtract 1 (true_divide_scalar (core_data fx_cube) 100)), errors))"
  by simp

lemma loop_other_name:
  "path \<noteq> [] \<Longrightarrow> load path = Some fx_cube \<Longrightarrow>
   shape_is_broadcastable (cube_shape fx_cube) (cube_shape c) \<Longrightarrow>
   fx_var \<noteq> ''sftlf'' \<Longrightarrow> fx_var \<noteq> ''sftof'' \<Longrightarrow>
   land_fraction_loop load c ((fx_var, Some path) # rest) errors loads =
   land_fraction_loop load c rest (errors @ [cannot_calculate fx_var]) (loads @ [path])"
  by simp

lemmas loop_branches =
  loop_missing loop_load_error loop_bad_shape loop_sftlf loop_sftof loop_other_name

lemma candidate_cases
  [case_names missing load_error bad_shape sftlf sftof other_name]:
  fixes load :: loader and c :: cube and fx_var :: string and fx_path :: "string option"
  obtains
    "fx_path = None \<or> fx_path = Some []"
  | path where "fx_path = Some path" "path \<noteq> []" "load path = None"
  | path fx_cube where "fx_path = Some path" "path \<noteq> []" "load path = Some fx_cube"
      "\<not> shape_is_broadcastable (cube_shape fx_cube) (cube_shape c)"
  | path fx_cube where "fx_path = Some path" "path \<noteq> []" "load path = Some fx_cube"
      "shape_is_broadcastable (cube_shape fx_cube) (cube_shape c)" "fx_var = ''sftlf''"
  | path fx_cube where "fx_path = Some path" "path \<noteq> []" "load path = Some fx_cube"
      "shape_is_broadcastable (cube_shape fx_cube) (cube_shape c)" "fx_var = ''sftof''"
  | path fx_cube where "fx_path = Some path" "path \<noteq> []" "load path = Some fx_cube"
      "shape_is_broadcastable (cube_shape fx_cube) (cube_shape c)"
      "fx_var \<noteq> ''sftlf''" "fx_var \<noteq> ''sftof''"
proof (cases fx_path)
  case None
  then show ?thesis using that(1) by simp
next
  case (Some path)
  show ?thesis
  proof (cases "path = []")
    case True
    with Some show ?thesis using that(1) by simp
  next
    case False
    show ?thesis
    proof (cases "load path")
      case None
      with Some False show ?thesis using that(2) by simp
    next
      case ld: (Some fx_cube)
      with Some False show ?thesis using that(3-6) [of path fx_cube] by blast
    qed
  qed
qed

declare land_fraction_loop.simps(2) [simp del]

lemma loop_raises_only_load_error:
  "land_fraction_loop load c fx errors loads = (ls, Inl e) \<Longrightarrow> \<exists>p. e = LoadError p"
proof (induction fx arbitrary: errors loads)
  case Nil
  then show ?case by simp
next
  case (Cons entry rest)
  obtain fx_var fx_path where entry: "entry = (fx_var, fx_path)" by (cases entry)
  show ?case
    using Cons.prems Cons.IH unfolding entry
    by (cases rule: candidate_cases [where fx_path = fx_path and load = load and c = c and fx_var = fx_var])
       (auto simp: loop_branches)
qed

lemma loop_winner:
  "land_fraction_loop load c fx errors loads = (ls, Inr (Some lf, es)) \<Longrightarrow>
   \<exists>fx_var path fx_cube.
     (fx_var, Some path) \<in> set fx \<and> path \<noteq> [] \<and> load path = Some fx_cube \<and>
     shape_is_broadcastable (cube_shape fx_cube) (cube_shape c) \<and>
     (fx_var = ''sftlf'' \<and> lf = true_divide_scalar (core_data fx_cube) 100 \<or>
      fx_var = ''sftof'' \<and>
        lf = scalar_subtract 1 (true_divide_scalar (core_data fx_cube) 100))"
proof (induction fx arbitrary: errors loads)
  case Nil
  then show ?case by simp
next
  case (Cons entry rest)
  obtain fx_var fx_path where entry: "entry = (fx_var, fx_path)" by (cases entry)
  show ?case
  proof (cases rule: candidate_cases [where fx_path = fx_path and load = load and c = c and fx_var = fx_var])
    case missing
    then have "land_fraction_loop load c rest (errors @ [file_not_found fx_var]) loads
               = (ls, Inr (Some lf, es))"
      using Cons.prems by (simp add: entry loop_missing)
    from Cons.IH [OF this] show ?thesis by auto
  next
    case (load_error path)
    then show ?thesis using Cons.prems by (simp add: entry loop_load_error)
  next
    case (bad_shape path fx_cube)
    then have "land_fraction_loop load c rest
                 (errors @ [not_broadcastable fx_var fx_cube c]) (loads @ [path])
               = (ls, Inr (Some lf, es))"
      using Cons.prems by (simp add: entry loop_bad_shape)
    from Cons.IH [OF this] show ?thesis by auto
  next
    case (sftlf path fx_cube)
    then have "lf = true_divide_scalar (core_data fx_cube) 100"
      using Cons.prems by (simp add: entry loop_sftlf)
    with sftlf show ?thesis unfolding entry by (intro exI [of _ fx_var] exI [of _ path] exI [of _ fx_cube]) simp
  next
    case (sftof path fx_cube)
    then have "lf = scalar_subtract 1 (true_divide_scalar (core_data fx_cube) 100)"
      using Cons.prems by (simp add: entry loop_sftof)
    with sftof show ?thesis unfolding entry by (intro exI [of _ fx_var] exI [of _ path] exI [of _ fx_cube]) simp
  next
    case (other_name path fx_cube)
    then have "land_fraction_loop load c rest
                 (errors @ [cannot_calculate fx_var]) (loads @ [path])
               = (ls, Inr (Some lf, es))"
      using Cons.prems by (simp add: entry loop_other_name)
    from Cons.IH [OF this] show ?thesis by auto
  qed
qed

lemma loop_continues_after_absent:
  "land_fraction_loop load c before errors loads = (ls, Inr (None, es)) \<Longrightarrow>
   land_fraction_loop load c (before @ rest) errors loads =
   land_fraction_loop load c rest es ls"
proof (induction before arbitrary: errors loads)
  case Nil
  then show ?case by simp
next
  case (Cons entry before)
  obtain fx_var fx_path where entry: "entry = (fx_var, fx_path)" by (cases entry)
  show ?case
    using Cons.prems Cons.IH unfolding entry
    by (cases rule: candidate_cases [where fx_path = fx_path and load = load and c = c and fx_var = fx_var])
       (auto simp: loop_branches)
qed

section \<open>Outcomes of the weighting\<close>

lemma weighting_type_error:
  "area_type \<noteq> ''land'' \<Longrightarrow> area_type \<noteq> ''sea'' \<Longrightarrow>
   weighting_landsea_fraction load w r fx_files area_type strict =
   (w, Inl (TypeError (type_error_msg area_type)))"
  by (simp add: weighting_landsea_fraction_def)

lemma weighting_load_error:
  "area_type = ''land'' \<or> area_type = ''sea'' \<Longrightarrow>
   get_land_fraction load (heap w r) fx_files = (loads, Inl e) \<Longrightarrow>
   weighting_landsea_fraction load w r fx_files area_type strict =
   (w\<lparr>loaded := loaded w @ loads\<rparr>, Inl e)"
  by (auto simp: weighting_landsea_fraction_def)

lemma weighting_absent:
  "area_type = ''land'' \<or> area_type = ''sea'' \<Longrightarrow>
   get_land_fraction load (heap w r) fx_files = (loads, Inr (None, errors)) \<Longrightarrow>
   weighting_landsea_fraction load w r fx_files area_type strict =
   (if strict
    then (w\<lparr>loaded := loaded w @ loads\<rparr>, Inl (ValueError (value_error_msg errors)))
    else (w\<lparr>loaded := loaded w @ loads,
            debug_log := debug_log w @ [debug_msg (var_name (heap w r)) area_type errors]\<rparr>,
          Inr r))"
  by (auto simp: weighting_landsea_fraction_def)

lemma weighting_resolved:
  "area_type = ''land'' \<or> area_type = ''sea'' \<Longrightarrow>
   get_land_fraction load (heap w r) fx_files = (loads, Inr (Some lf, errors)) \<Longrightarrow>
   weighting_landsea_fraction load w r fx_files area_type strict =
   (case assign_product (w\<lparr>loaded := loaded w @ loads\<rparr>) r (core_data (heap w r))
           (if area_type = ''land'' then lf else scalar_subtract 1 lf) of
      Inl e \<Rightarrow> (w\<lparr>loaded := loaded w @ loads\<rparr>, Inl e)
    | Inr w' \<Rightarrow> (w', Inr r))"
  by (auto simp: weighting_landsea_fraction_def Let_def split: sum.splits)

lemma resolved_winner:
  assumes "get_land_fraction load c fx_files = (loads, Inr (Some lf, errors))"
  obtains fx_var path fx_cube where
    "(fx_var, Some path) \<in> set fx_files" "path \<noteq> []" "load path = Some fx_cube"
    "shape_is_broadcastable (cube_shape fx_cube) (cube_shape c)"
    "fx_var = ''sftlf'' \<and> lf = true_divide_scalar (core_data fx_cube) 100 \<or>
     fx_var = ''sftof'' \<and>
       lf = scalar_subtract 1 (true_divide_scalar (core_data fx_cube) 100)"
  using loop_winner [OF assms [unfolded get_land_fraction_def]] by blast

lemma resolved_fraction_fits:
  assumes "get_land_fraction load c fx_files = (loads, Inr (Some lf, errors))"
  shows "shape_is_broadcastable (shape (core_data c)) (shape lf)"
    and "with_python_float (dtype lf) = dtype lf"
proof -
  from assms obtain fx_var path fx_cube where
    fits: "shape_is_broadcastable (cube_shape fx_cube) (cube_shape c)" and
    lf: "fx_var = ''sftlf'' \<and> lf = true_divide_scalar (core_data fx_cube) 100 \<or>
         fx_var = ''sftof'' \<and>
           lf = scalar_subtract 1 (true_divide_scalar (core_data fx_cube) 100)"
    by (rule resolved_winner)
  from lf have "shape lf = cube_shape fx_cube"
    by (auto simp: cube_shape_def core_data_def)
  with fits show "shape_is_broadcastable (shape (core_data c)) (shape lf)"
    by (simp add: cube_shape_def core_data_def shape_is_broadcastable_sym)
  from lf show "with_python_float (dtype lf) = dtype lf" by auto
qed


lemma product_with_fraction:
  assumes "get_land_fraction load c fx_files = (loads, Inr (Some lf, errors))"
    and "wt = lf \<or> wt = scalar_subtract 1 lf"
  obtains s where "broadcast_shapes (shape (core_data c)) (shape lf) = Some s"
    and "np_multiply (core_data c) wt =
           Inr \<lparr>shape = s, dtype = promote (dtype (core_data c)) (dtype lf),
                elems = map (\<lambda>k. item (core_data c) (unravel s k) * item wt (unravel s k))
                          [0..<prod_list s]\<rparr>"
proof -
  have sh: "shape wt = shape lf" and dt: "dtype wt = dtype lf"
    using assms(2) resolved_fraction_fits(2) [OF assms(1)] by auto
  have "shape_is_broadcastable (shape (core_data c)) (shape wt)"
    using resolved_fraction_fits(1) [OF assms(1)] sh by simp
  then obtain s where s: "broadcast_shapes (shape (core_data c)) (shape wt) = Some s"
    and "np_binary (*) (core_data c) wt =
           Inr \<lparr>shape = s, dtype = promote (dtype (core_data c)) (dtype wt),
                elems = map (\<lambda>k. item (core_data c) (unravel s k) * item wt (unravel s k))
                          [0..<prod_list s]\<rparr>"
    by (rule np_binary_result)
  then show ?thesis
    using that [of s] sh dt by (simp add: np_multiply_def)
qed

text \<open>A fraction that can be stretched to a shape leaves that shape to the product.\<close>

lemma broadcast_rev_stretched:
  "length ns \<le> length ms \<Longrightarrow> list_all stretches_to (zip ns ms) \<Longrightarrow>
   broadcast_rev ms ns = Some ms"
  by (induction ms ns rule: broadcast_rev.induct) (auto simp: stretches_to_def)

lemma broadcast_shapes_stretched:
  "broadcastable_to src dst \<Longrightarrow> broadcast_shapes dst src = Some dst"
  by (simp add: broadcastable_to_def broadcast_shapes_def broadcast_rev_stretched)

lemma broadcast_rev_kept:
  "broadcast_rev ms ns = Some ms \<Longrightarrow>
   length ns \<le> length ms \<and> list_all stretches_to (zip ns ms)"
proof (induction ms ns rule: broadcast_rev.induct)
  case (1 ns)
  then show ?case by simp
next
  case (2 m ms)
  then show ?case by simp
next
  case (3 m ms n ns)
  then show ?case
    by (auto simp: stretches_to_def split: if_splits)
qed

lemma broadcast_shapes_kept:
  "broadcast_shapes dst src = Some dst \<Longrightarrow> broadcastable_to src dst"
proof -
  assume "broadcast_shapes dst src = Some dst"
  then have "broadcast_rev (rev dst) (rev src) = Some (rev dst)"
    by (auto simp: broadcast_shapes_def)
  from broadcast_rev_kept [OF this] show ?thesis
    by (simp add: broadcastable_to_def)
qed

text \<open>The two ways of the assignment.\<close>

lemma set_data_stored:
  "cube_shape (heap w r) = shape d \<Longrightarrow>
   set_data w r d = Inr (w\<lparr>heap := (heap w)(r := (heap w r)\<lparr>data := d\<rparr>)\<rparr>)"
  by (simp add: set_data_def)

lemma set_data_refused:
  "cube_shape (heap w r) \<noteq> shape d \<Longrightarrow> cube_shape (heap w r) \<noteq> [] \<Longrightarrow>
   set_data w r d = Inl (ValueError (require_shape_msg (cube_shape (heap w r)) (shape d)))"
  by (simp add: set_data_def)

lemma set_data_frame:
  "set_data w r d = Inr w' \<Longrightarrow>
   heap w' = (heap w)(r := (heap w r)\<lparr>data := d\<rparr>) \<and>
   loaded w' = loaded w \<and> debug_log w' = debug_log w"
  by (auto simp: set_data_def split: if_splits)

lemma weighting_resolved_product:
  assumes area: "area_type = ''land'' \<or> area_type = ''sea''"
    and res: "get_land_fraction load (heap w r) fx_files = (loads, Inr (Some lf, errors))"
  obtains d s where
    "broadcast_shapes (shape (core_data (heap w r))) (shape lf) = Some s"
    "d = \<lparr>shape = s, dtype = promote (dtype (core_data (heap w r))) (dtype lf),
          elems = map (\<lambda>k. item (core_data (heap w r)) (unravel s k) *
                           item (if area_type = ''land'' then lf else scalar_subtract 1 lf)
                             (unravel s k))
                    [0..<prod_list s]\<rparr>"
    "weighting_landsea_fraction load w r fx_files area_type strict =
       (case set_data (w\<lparr>loaded := loaded w @ loads\<rparr>) r d of
          Inl e \<Rightarrow> (w\<lparr>loaded := loaded w @ loads\<rparr>, Inl e)
        | Inr w' \<Rightarrow> (w', Inr r))"
proof -
  let ?wt = "if area_type = ''land'' then lf else scalar_subtract 1 lf"
  have "?wt = lf \<or> ?wt = scalar_subtract 1 lf" by simp
  with res obtain s where s: "broadcast_shapes (shape (core_data (heap w r))) (shape lf) = Some s"
    and m: "np_multiply (core_data (heap w r)) ?wt =
           Inr \<lparr>shape = s, dtype = promote (dtype (core_data (heap w r))) (dtype lf),
                elems = map (\<lambda>k. item (core_data (heap w r)) (unravel s k) * item ?wt (unravel s k))
                          [0..<prod_list s]\<rparr>"
    by (rule product_with_fraction)
  have "weighting_landsea_fraction load w r fx_files area_type strict =
       (case set_data (w\<lparr>loaded := loaded w @ loads\<rparr>) r
               \<lparr>shape = s, dtype = promote (dtype (core_data (heap w r))) (dtype lf),
                elems = map (\<lambda>k. item (core_data (heap w r)) (unravel s k) * item ?wt (unravel s k))
                          [0..<prod_list s]\<rparr> of
          Inl e \<Rightarrow> (w\<lparr>loaded := loaded w @ loads\<rparr>, Inl e)
        | Inr w' \<Rightarrow> (w', Inr r))"
    unfolding weighting_resolved [OF area res] assign_product_def m by simp
  with s show ?thesis using that by blast
qed

lemma weighting_stretched_returns:
  assumes area: "area_type = ''land'' \<or> area_type = ''sea''"
    and res: "get_land_fraction load (heap w r) fx_files = (loads, Inr (Some lf, errors))"
    and fits: "broadcastable_to (shape lf) (shape (core_data (heap w r)))"
  obtains d where
    "d = \<lparr>shape = shape (core_data (heap w r)),
          dtype = promote (dtype (core_data (heap w r))) (dtype lf),
          elems = map (\<lambda>k. item (core_data (heap w r)) (unravel (shape (core_data (heap w r))) k) *
                           item (if area_type = ''land'' then lf else scalar_subtract 1 lf)
                             (unravel (shape (core_data (heap w r))) k))
                    [0..<prod_list (shape (core_data (heap w r)))]\<rparr>"
    "weighting_landsea_fraction load w r fx_files area_type strict =
       (w\<lparr>loaded := loaded w @ loads,
          heap := (heap w)(r := (heap w r)\<lparr>data := d\<rparr>)\<rparr>, Inr r)"
proof -
  let ?cd = "core_data (heap w r)"
  obtain d s where s: "broadcast_shapes (shape ?cd) (shape lf) = Some s"
    and d: "d = \<lparr>shape = s, dtype = promote (dtype ?cd) (dtype lf),
          elems = map (\<lambda>k. item ?cd (unravel s k) *
                           item (if area_type = ''land'' then lf else scalar_subtract 1 lf)
                             (unravel s k))
                    [0..<prod_list s]\<rparr>"
    and call: "weighting_landsea_fraction load w r fx_files area_type strict =
       (case set_data (w\<lparr>loaded := loaded w @ loads\<rparr>) r d of
          Inl e \<Rightarrow> (w\<lparr>loaded := loaded w @ loads\<rparr>, Inl e)
        | Inr w' \<Rightarrow> (w', Inr r))"
    by (rule weighting_resolved_product [OF area res, of strict])
  from s fits have s_eq: "s = shape ?cd" by (simp add: broadcast_shapes_stretched)
  have "cube_shape (heap (w\<lparr>loaded := loaded w @ loads\<rparr>) r) = shape d"
    by (simp add: d s_eq cube_shape_def core_data_def)
  from set_data_stored [OF this] call
  have "weighting_landsea_fraction load w r fx_files area_type strict =
       (w\<lparr>loaded := loaded w @ loads,
          heap := (heap w)(r := (heap w r)\<lparr>data := d\<rparr>)\<rparr>, Inr r)"
    by simp
  with d s_eq show ?thesis using that by blast
qed

section \<open>Errors and the lenient mode\<close>

lemma get_land_fraction_empty:
  "get_land_fraction load c [] = ([], Inr (None, [''No fx files given.'']))"
  by (simp add: get_land_fraction_def)

lemma get_land_fraction_raises_only_load_error:
  "get_land_fraction load c fx_files = (loads, Inl e) \<Longrightarrow> \<exists>p. e = LoadError p"
  unfolding get_land_fraction_def by (rule loop_raises_only_load_error)

text \<open>
  C4. An \<open>area_type\<close> other than \<open>land\<close> and \<open>sea\<close> raises \<open>TypeError\<close> whatever the
  cube, the mapping and \<open>strict\<close> are, and leaves the world as it was: nothing has
  been loaded and nothing logged.
\<close>

theorem invalid_area_type_raises_first:
  assumes "area_type \<noteq> ''land''" and "area_type \<noteq> ''sea''"
  shows "weighting_landsea_fraction load w r fx_files area_type strict =
         (w, Inl (TypeError (type_error_msg area_type)))"
  using assms by (rule weighting_type_error)

theorem invalid_area_type_raises_first_witness:
  "''ocean'' \<noteq> ''land'' \<and> ''ocean'' \<noteq> ''sea'' \<and>
   weighting_landsea_fraction sample_load sample_world 0
     [(''sftlf'', Some ''sftlf.nc'')] ''ocean'' False =
   (sample_world, Inl (TypeError (''Expected 'land' or 'sea' for area_type, got 'ocean'' @ [CHR 0x27])))"
  using invalid_area_type_raises_first
    [of "''ocean''" sample_load sample_world 0 "[(''sftlf'', Some ''sftlf.nc'')]" False]
  by (simp add: type_error_msg_def quoted_def apos_def)

text \<open>
  The \<open>ValueError\<close> of the function itself, the one whose message starts with
  the remark that weighting is not possible, is raised exactly when \<open>strict\<close>
  holds and the resolution ends without a fraction.
\<close>

lemma require_shape_msg_distinct:
  "require_shape_msg old new \<noteq> value_error_msg errors"
  by (simp add: require_shape_msg_def value_error_msg_def)

lemma not_possible_error_iff_strict_and_absent:
  assumes "area_type = ''land'' \<or> area_type = ''sea''"
  shows "(\<exists>errors. snd (weighting_landsea_fraction load w r fx_files area_type strict) =
                    Inl (ValueError (value_error_msg errors))) =
         (strict \<and> (\<exists>loads errors.
            get_land_fraction load (heap w r) fx_files = (loads, Inr (None, errors))))"
proof -
  obtain loads res where glf: "get_land_fraction load (heap w r) fx_files = (loads, res)"
    by (cases "get_land_fraction load (heap w r) fx_files")
  show ?thesis
  proof (cases res)
    case (Inl e)
    with glf get_land_fraction_raises_only_load_error obtain p where "e = LoadError p"
      by blast
    with Inl glf weighting_load_error [OF assms, of load w r fx_files loads e strict]
    show ?thesis by simp
  next
    case (Inr pair)
    obtain lf errors where pair: "pair = (lf, errors)" by (cases pair)
    show ?thesis
    proof (cases lf)
      case None
      with Inr pair glf weighting_absent [OF assms, of load w r fx_files loads errors strict]
      show ?thesis by auto
    next
      case (Some f)
      with Inr pair glf have res: "get_land_fraction load (heap w r) fx_files =
                              (loads, Inr (Some f, errors))" by simp
      obtain d s where
        "broadcast_shapes (shape (core_data (heap w r))) (shape f) = Some s"
        "d = \<lparr>shape = s, dtype = promote (dtype (core_data (heap w r))) (dtype f),
            elems = map (\<lambda>k. item (core_data (heap w r)) (unravel s k) *
                             item (if area_type = ''land'' then f else scalar_subtract 1 f)
                               (unravel s k))
                      [0..<prod_list s]\<rparr>"
        and call: "weighting_landsea_fraction load w r fx_files area_type strict =
         (case set_data (w\<lparr>loaded := loaded w @ loads\<rparr>) r d of
            Inl e \<Rightarrow> (w\<lparr>loaded := loaded w @ loads\<rparr>, Inl e)
          | Inr w' \<Rightarrow> (w', Inr r))"
        by (rule weighting_resolved_product [OF assms res, of strict])
      have "snd (weighting_landsea_fraction load w r fx_files area_type strict) \<noteq>
            Inl (ValueError (value_error_msg es))" for es
        unfolding call
        by (auto simp: set_data_def require_shape_msg_distinct split: sum.splits)
      with res show ?thesis by simp
    qed
  qed
qed

text \<open>
  C3. The docstring of the function promises \<open>ValueError\<close> when \<open>strict\<close> holds
  and the weighting fails, and no weighting instead of an error when \<open>strict\<close>
  is false. A land fraction of shape \<open>(2, 2, 3)\<close> passes the shape check against
  a cube of shape \<open>(2, 3)\<close> and is resolved without a diagnostic. The product
  has the shape \<open>(2, 2, 3)\<close>, the cube refuses it, and the call raises
  \<open>ValueError\<close> although \<open>strict\<close> is false and a fraction was resolved. The
  cube and the log are as before the call.
\<close>

theorem resolved_fraction_raises_in_lenient_mode:
  "shape_is_broadcastable [2, 2, 3] [2, 3] \<and>
   get_land_fraction sample_load (heap sample_world 0) [(''sftlf'', Some ''stack.nc'')] =
     ([''stack.nc''],
      Inr (Some \<lparr>shape = [2, 2, 3], dtype = Float64,
                 elems = [0, 1 / 10, 1 / 5, 3 / 10, 2 / 5, 1 / 2,
                          1 / 2, 3 / 5, 7 / 10, 4 / 5, 9 / 10, 1]\<rparr>, [])) \<and>
   snd (weighting_landsea_fraction sample_load sample_world 0
          [(''sftlf'', Some ''stack.nc'')] ''land'' False) =
     Inl (ValueError ''Require data with shape (2, 3), got (2, 2, 3).'') \<and>
   heap (fst (weighting_landsea_fraction sample_load sample_world 0
          [(''sftlf'', Some ''stack.nc'')] ''land'' False)) 0 = heap sample_world 0 \<and>
   debug_log (fst (weighting_landsea_fraction sample_load sample_world 0
          [(''sftlf'', Some ''stack.nc'')] ''land'' False)) = []"
  by code_simp

text \<open>
  C5. With a valid \<open>area_type\<close>, \<open>strict\<close> false and a resolution that ends
  without a fraction, the call returns the reference it was given, the heap is
  the one before the call, so the cube has the data, shape and name it had, and
  one message has been added to the debug log: it holds the name of the cube,
  the area type and the diagnostics joined with spaces.
\<close>

theorem lenient_absent_returns_cube_untouched:
  assumes "area_type = ''land'' \<or> area_type = ''sea''"
    and "get_land_fraction load (heap w r) fx_files = (loads, Inr (None, errors))"
  shows "\<exists>w'. weighting_landsea_fraction load w r fx_files area_type False = (w', Inr r) \<and>
           heap w' = heap w \<and>
           debug_log w' = debug_log w @
             [''Weighting of '' @ quoted (var_name (heap w r)) @ '' with '' @
              quoted area_type @
              '' fraction not possible because of the following problems: '' @
              join '' '' errors]"
  using weighting_absent [OF assms, of False] by (simp add: debug_msg_def)

theorem lenient_absent_returns_cube_untouched_witness:
  "(''sea'' = ''land'' \<or> ''sea'' = ''sea'') \<and>
   get_land_fraction sample_load (heap sample_world 0)
     [(''sftlf'', None), (''sftof'', Some ''four.nc'')] =
     ([''four.nc''],
      Inr (None, [''File for 'sftlf' not found.'',
                  ''Cube 'sftof' with shape (4,) not broadcastable to cube 'gpp' with shape (2, 3).''])) \<and>
   (\<exists>w'. weighting_landsea_fraction sample_load sample_world 0
            [(''sftlf'', None), (''sftof'', Some ''four.nc'')] ''sea'' False = (w', Inr 0) \<and>
      heap w' = heap sample_world \<and>
      debug_log w' =
        [''Weighting of 'gpp' with 'sea' fraction not possible because of the following problems: File for 'sftlf' not found. Cube 'sftof' with shape (4,) not broadcastable to cube 'gpp' with shape (2, 3).''])"
proof -
  have area: "''sea'' = ''land'' \<or> ''sea'' = ''sea''" by simp
  have glf: "get_land_fraction sample_load (heap sample_world 0)
               [(''sftlf'', None), (''sftof'', Some ''four.nc'')] =
             ([''four.nc''],
              Inr (None, [''File for 'sftlf' not found.'',
                  ''Cube 'sftof' with shape (4,) not broadcastable to cube 'gpp' with shape (2, 3).'']))"
    by code_simp
  from lenient_absent_returns_cube_untouched [OF area glf]
  show ?thesis using area glf
    by (simp add: sample_world_def quoted_def apos_def)
qed

section \<open>The shape check and the order of the candidates\<close>

text \<open>
  C7. The check of the code and the rule of the specification, with the shorter
  shape padded with ones on the left, accept the same pairs of shapes.
\<close>

theorem shape_check_refines_spec:
  "shape_is_broadcastable s1 s2 = spec_shapes_compatible s1 s2"
  by (rule shape_check_eq_spec)

theorem shape_check_refines_spec_witness:
  "shape_is_broadcastable [1, 1] [2, 3] \<and> spec_shapes_compatible [1, 1] [2, 3] \<and>
   \<not> shape_is_broadcastable [4] [2, 3] \<and> \<not> spec_shapes_compatible [4] [2, 3] \<and>
   shape_is_broadcastable [5, 2, 3] [3] \<and> spec_shapes_compatible [5, 2, 3] [3]"
proof -
  have "spec_shapes_compatible [1, 1] [2, 3]"
    and "\<not> spec_shapes_compatible [4] [2, 3]"
    and "spec_shapes_compatible [5, 2, 3] [3]"
    by (simp_all add: spec_shapes_compatible_def pad_left_def dims_ok_def)
  then show ?thesis
    using shape_check_refines_spec [of "[1, 1]" "[2, 3]"]
      shape_check_refines_spec [of "[4]" "[2, 3]"]
      shape_check_refines_spec [of "[5, 2, 3]" "[3]"]
    by simp
qed

text \<open>
  C10. A fraction field whose shape is the shape of the target with further
  dimensions in front, of any sizes, passes the check. With a path that loads
  and the name \<open>sftlf\<close> or \<open>sftof\<close> it is the fraction that the resolution
  returns, and that fraction has more dimensions than the target.
\<close>

theorem extra_leading_dimensions_accepted:
  assumes "p \<noteq> []"
    and "cube_shape fx_cube = p @ cube_shape c"
    and "path \<noteq> []" and "load path = Some fx_cube"
    and "fx_var = ''sftlf'' \<or> fx_var = ''sftof''"
  shows "shape_is_broadcastable (p @ cube_shape c) (cube_shape c) \<and>
         (\<exists>lf. get_land_fraction load c ((fx_var, Some path) # rest) =
                  ([path], Inr (Some lf, [])) \<and>
               shape lf = p @ cube_shape c \<and>
               length (cube_shape c) < length (shape lf))"
proof -
  have fits: "shape_is_broadcastable (p @ cube_shape c) (cube_shape c)"
    by (rule shape_is_broadcastable_append)
  then have fits': "shape_is_broadcastable (cube_shape fx_cube) (cube_shape c)"
    using assms(2) by simp
  have sh: "shape (core_data fx_cube) = p @ cube_shape c"
    using assms(2) by (simp add: cube_shape_def core_data_def)
  from assms(5) show ?thesis
  proof
    assume "fx_var = ''sftlf''"
    then have "get_land_fraction load c ((fx_var, Some path) # rest) =
               ([path], Inr (Some (true_divide_scalar (core_data fx_cube) 100), []))"
      using loop_sftlf [where load = load and path = path, OF assms(3,4) fits'] by (simp add: get_land_fraction_def)
    with fits sh assms(1) show ?thesis by simp
  next
    assume "fx_var = ''sftof''"
    then have "get_land_fraction load c ((fx_var, Some path) # rest) =
               ([path],
                Inr (Some (scalar_subtract 1 (true_divide_scalar (core_data fx_cube) 100)), []))"
      using loop_sftof [where load = load and path = path, OF assms(3,4) fits'] by (simp add: get_land_fraction_def)
    with fits sh assms(1) show ?thesis by simp
  qed
qed

theorem extra_leading_dimensions_accepted_witness:
  "[2] \<noteq> ([] :: nat list) \<and>
   sample_load ''stack.nc'' =
     Some \<lparr>var_name = ''sftlf'',
           data = \<lparr>shape = [2, 2, 3], dtype = Float64,
                   elems = [0, 10, 20, 30, 40, 50, 50, 60, 70, 80, 90, 100]\<rparr>\<rparr> \<and>
   cube_shape (heap sample_world 0) = [2, 3] \<and>
   shape_is_broadcastable [2, 2, 3] [2, 3] \<and>
   (\<exists>lf. get_land_fraction sample_load (heap sample_world 0)
            [(''sftlf'', Some ''stack.nc''), (''sftof'', Some ''sftof.nc'')] =
            ([''stack.nc''], Inr (Some lf, [])) \<and>
         shape lf = [2, 2, 3])"
proof -
  let ?fx = "\<lparr>var_name = ''sftlf'',
              data = \<lparr>shape = [2, 2, 3], dtype = Float64,
                      elems = [0, 10, 20, 30, 40, 50, 50, 60, 70, 80, 90, 100]\<rparr>\<rparr>"
  have ld: "sample_load ''stack.nc'' = Some ?fx" by (simp add: sample_load_def)
  have tgt: "cube_shape (heap sample_world 0) = [2, 3]"
    by (simp add: sample_world_def cube_shape_def)
  have sh: "cube_shape ?fx = [2] @ cube_shape (heap sample_world 0)"
    by (simp add: tgt) (simp add: cube_shape_def)
  have "[2] \<noteq> ([] :: nat list)" and "''stack.nc'' \<noteq> []"
    and "''sftlf'' = ''sftlf'' \<or> ''sftlf'' = ''sftof''" by simp_all
  from extra_leading_dimensions_accepted
    [where load = sample_load and path = "''stack.nc''" and p = "[2]"
       and rest = "[(''sftof'', Some ''sftof.nc'')]", OF this(1) sh this(2) ld this(3)]
  show ?thesis using ld tgt by auto
qed

text \<open>
  C6. The entries are taken in the order of the mapping. When every entry
  before a candidate has been turned down, and the candidate has a path that
  loads, a shape that passes the check and the name \<open>sftlf\<close> or \<open>sftof\<close>, the
  resolution returns its fraction: the data divided by 100 for \<open>sftlf\<close>, one
  minus that for \<open>sftof\<close>. The loaded paths end with the one of the candidate,
  and the entries after it change nothing, in the resolution and in the whole
  call.
\<close>

theorem first_valid_candidate_wins:
  assumes "land_fraction_loop load c before [] [] = (loads, Inr (None, errors))"
    and "path \<noteq> []" and "load path = Some fx_cube"
    and "shape_is_broadcastable (cube_shape fx_cube) (cube_shape c)"
    and "fx_var = ''sftlf'' \<or> fx_var = ''sftof''"
  shows "get_land_fraction load c (before @ (fx_var, Some path) # rest) =
           (loads @ [path],
            Inr (Some (if fx_var = ''sftlf''
                       then true_divide_scalar (core_data fx_cube) 100
                       else scalar_subtract 1 (true_divide_scalar (core_data fx_cube) 100)),
                 errors)) \<and>
         (heap w r = c \<longrightarrow>
            weighting_landsea_fraction load w r (before @ (fx_var, Some path) # rest)
              area_type strict =
            weighting_landsea_fraction load w r (before @ [(fx_var, Some path)])
              area_type strict)"
proof -
  have step: "land_fraction_loop load c ((fx_var, Some path) # tl) errors loads =
           (loads @ [path],
            Inr (Some (if fx_var = ''sftlf''
                       then true_divide_scalar (core_data fx_cube) 100
                       else scalar_subtract 1 (true_divide_scalar (core_data fx_cube) 100)),
                 errors))" for tl
    using assms(5) loop_sftlf [where load = load and path = path, OF assms(2,3,4)]
      loop_sftof [where load = load and path = path, OF assms(2,3,4)] by auto
  have res: "get_land_fraction load c (before @ (fx_var, Some path) # tl) =
           (loads @ [path],
            Inr (Some (if fx_var = ''sftlf''
                       then true_divide_scalar (core_data fx_cube) 100
                       else scalar_subtract 1 (true_divide_scalar (core_data fx_cube) 100)),
                 errors))" for tl
    using loop_continues_after_absent [OF assms(1)] step
    by (simp add: get_land_fraction_def)
  have "get_land_fraction load c (before @ (fx_var, Some path) # rest) =
        get_land_fraction load c (before @ [(fx_var, Some path)])"
    using res [of rest] res [of "[]"] by simp
  then have "heap w r = c \<longrightarrow>
            weighting_landsea_fraction load w r (before @ (fx_var, Some path) # rest)
              area_type strict =
            weighting_landsea_fraction load w r (before @ [(fx_var, Some path)])
              area_type strict"
    by (simp add: weighting_landsea_fraction_def)
  with res [of rest] show ?thesis by simp
qed


theorem first_valid_candidate_wins_witness:
  "land_fraction_loop sample_load (heap sample_world 0) [(''sftof'', Some ''four.nc'')] [] [] =
     ([''four.nc''],
      Inr (None,
        [''Cube 'sftof' with shape (4,) not broadcastable to cube 'gpp' with shape (2, 3).''])) \<and>
   sample_load ''sftlf.nc'' =
     Some \<lparr>var_name = ''sftlf'',
           data = \<lparr>shape = [1, 1], dtype = Float64, elems = [50]\<rparr>\<rparr> \<and>
   shape_is_broadcastable [1, 1] [2, 3] \<and>
   get_land_fraction sample_load (heap sample_world 0)
     [(''sftof'', Some ''four.nc''), (''sftlf'', Some ''sftlf.nc''),
      (''sftof'', Some ''sftof.nc'')] =
     ([''four.nc'', ''sftlf.nc''],
      Inr (Some \<lparr>shape = [1, 1], dtype = Float64, elems = [1 / 2]\<rparr>,
        [''Cube 'sftof' with shape (4,) not broadcastable to cube 'gpp' with shape (2, 3).''])) \<and>
   weighting_landsea_fraction sample_load sample_world 0
     [(''sftof'', Some ''four.nc''), (''sftlf'', Some ''sftlf.nc''),
      (''sftof'', Some ''sftof.nc'')] ''land'' True =
   weighting_landsea_fraction sample_load sample_world 0
     [(''sftof'', Some ''four.nc''), (''sftlf'', Some ''sftlf.nc'')] ''land'' True"
proof -
  let ?fx = "\<lparr>var_name = ''sftlf'',
              data = \<lparr>shape = [1, 1], dtype = Float64, elems = [50]\<rparr>\<rparr>"
  let ?c = "heap sample_world 0"
  have before: "land_fraction_loop sample_load ?c [(''sftof'', Some ''four.nc'')] [] [] =
     ([''four.nc''],
      Inr (None,
        [''Cube 'sftof' with shape (4,) not broadcastable to cube 'gpp' with shape (2, 3).'']))"
    by code_simp
  have ld: "sample_load ''sftlf.nc'' = Some ?fx" by (simp add: sample_load_def)
  have fits: "shape_is_broadcastable (cube_shape ?fx) (cube_shape ?c)"
    by (simp add: sample_world_def cube_shape_def shape_is_broadcastable_def dims_ok_def)
  have fits': "shape_is_broadcastable [1, 1] [2, 3]"
    by (simp add: shape_is_broadcastable_def dims_ok_def)
  have "''sftlf.nc'' \<noteq> []" and "''sftlf'' = ''sftlf'' \<or> ''sftlf'' = ''sftof''"
    by simp_all
  from first_valid_candidate_wins
    [where load = sample_load and path = "''sftlf.nc''" and w = sample_world and r = 0
       and rest = "[(''sftof'', Some ''sftof.nc'')]" and area_type = "''land''"
       and strict = True,
     OF before this(1) ld fits this(2)]
  show ?thesis using before ld fits'
    by (simp add: true_divide_scalar_def core_data_def with_python_float_def)
qed

text \<open>
  The diagnostics of candidates that were turned down before a later one
  succeeded reach neither an exception nor the log.
\<close>

theorem diagnostics_dropped_on_success:
  "snd (get_land_fraction sample_load (heap sample_world 0)
          [(''sftlf'', None), (''sftof'', Some ''sftof.nc'')]) =
     Inr (Some \<lparr>shape = [2, 3], dtype = Float64,
                elems = [1, 9 / 10, 4 / 5, 7 / 10, 3 / 5, 0]\<rparr>,
          [''File for 'sftlf' not found.'']) \<and>
   snd (weighting_landsea_fraction sample_load sample_world 0
          [(''sftlf'', None), (''sftof'', Some ''sftof.nc'')] ''land'' True) = Inr 0 \<and>
   debug_log (fst (weighting_landsea_fraction sample_load sample_world 0
          [(''sftlf'', None), (''sftof'', Some ''sftof.nc'')] ''land'' True)) = [] \<and>
   snd (weighting_landsea_fraction sample_load sample_world 0
          [(''sftlf'', None), (''sftof'', Some ''sftof.nc'')] ''land'' False) = Inr 0 \<and>
   debug_log (fst (weighting_landsea_fraction sample_load sample_world 0
          [(''sftlf'', None), (''sftof'', Some ''sftof.nc'')] ''land'' False)) = []"
  by code_simp

text \<open>
  C8, as the code has it. With a valid \<open>area_type\<close>, the diagnostics reach the
  outcome when the resolution ends without a fraction: in the message of the
  \<open>ValueError\<close> when \<open>strict\<close> holds, in one debug message otherwise. When the
  resolution returns a fraction, the debug log is the one before the call and
  no error with the diagnostics is raised; with a fraction that can be
  stretched to the shape of the cube the call returns the reference.
\<close>

theorem diagnostics_reported_only_when_absent:
  assumes "area_type = ''land'' \<or> area_type = ''sea''"
  shows "(\<forall>loads errors.
            get_land_fraction load (heap w r) fx_files = (loads, Inr (None, errors)) \<longrightarrow>
            (if strict
             then snd (weighting_landsea_fraction load w r fx_files area_type strict) =
                    Inl (ValueError
                      (''Weighting with land/sea fraction is not possible, the following errors occured: ''
                       @ join '' '' errors))
             else snd (weighting_landsea_fraction load w r fx_files area_type strict) = Inr r \<and>
                  debug_log (fst (weighting_landsea_fraction load w r fx_files area_type strict)) =
                    debug_log w @ [debug_msg (var_name (heap w r)) area_type errors])) \<and>
         (\<forall>loads lf errors.
            get_land_fraction load (heap w r) fx_files = (loads, Inr (Some lf, errors)) \<longrightarrow>
            debug_log (fst (weighting_landsea_fraction load w r fx_files area_type strict)) =
              debug_log w \<and>
            (\<forall>es. snd (weighting_landsea_fraction load w r fx_files area_type strict) \<noteq>
                    Inl (ValueError (value_error_msg es))) \<and>
            (broadcastable_to (shape lf) (shape (core_data (heap w r))) \<longrightarrow>
               snd (weighting_landsea_fraction load w r fx_files area_type strict) = Inr r))"
proof -
  let ?call = "weighting_landsea_fraction load w r fx_files area_type strict"
  have absent: "\<forall>loads errors.
            get_land_fraction load (heap w r) fx_files = (loads, Inr (None, errors)) \<longrightarrow>
            (if strict
             then snd ?call =
                    Inl (ValueError
                      (''Weighting with land/sea fraction is not possible, the following errors occured: ''
                       @ join '' '' errors))
             else snd ?call = Inr r \<and>
                  debug_log (fst ?call) =
                    debug_log w @ [debug_msg (var_name (heap w r)) area_type errors])"
    using weighting_absent [OF assms, of load w r fx_files _ _ strict]
    by (auto simp: value_error_msg_def)
  have resolved: "debug_log (fst ?call) = debug_log w \<and>
            (\<forall>es. snd ?call \<noteq> Inl (ValueError (value_error_msg es))) \<and>
            (broadcastable_to (shape lf) (shape (core_data (heap w r))) \<longrightarrow> snd ?call = Inr r)"
    if res: "get_land_fraction load (heap w r) fx_files = (loads, Inr (Some lf, errors))"
    for loads lf errors
  proof -
    obtain d s where
      "broadcast_shapes (shape (core_data (heap w r))) (shape lf) = Some s"
      "d = \<lparr>shape = s, dtype = promote (dtype (core_data (heap w r))) (dtype lf),
          elems = map (\<lambda>k. item (core_data (heap w r)) (unravel s k) *
                           item (if area_type = ''land'' then lf else scalar_subtract 1 lf)
                             (unravel s k))
                    [0..<prod_list s]\<rparr>"
      and call: "?call =
         (case set_data (w\<lparr>loaded := loaded w @ loads\<rparr>) r d of
            Inl e \<Rightarrow> (w\<lparr>loaded := loaded w @ loads\<rparr>, Inl e)
          | Inr w' \<Rightarrow> (w', Inr r))"
      by (rule weighting_resolved_product [OF assms res, of strict])
    have log: "debug_log (fst ?call) = debug_log w"
      unfolding call by (auto simp: set_data_def split: sum.splits)
    have none: "\<forall>es. snd ?call \<noteq> Inl (ValueError (value_error_msg es))"
      unfolding call
      by (auto simp: set_data_def require_shape_msg_distinct split: sum.splits)
    have returns: "snd ?call = Inr r"
      if fits: "broadcastable_to (shape lf) (shape (core_data (heap w r)))"
    proof -
      obtain d' where
        "d' = \<lparr>shape = shape (core_data (heap w r)),
          dtype = promote (dtype (core_data (heap w r))) (dtype lf),
          elems = map (\<lambda>k. item (core_data (heap w r)) (unravel (shape (core_data (heap w r))) k) *
                           item (if area_type = ''land'' then lf else scalar_subtract 1 lf)
                             (unravel (shape (core_data (heap w r))) k))
                    [0..<prod_list (shape (core_data (heap w r)))]\<rparr>"
        and "?call =
         (w\<lparr>loaded := loaded w @ loads,
            heap := (heap w)(r := (heap w r)\<lparr>data := d'\<rparr>)\<rparr>, Inr r)"
        by (rule weighting_stretched_returns [OF assms res fits, of strict])
      then show ?thesis by simp
    qed
    from log none returns show ?thesis by blast
  qed
  from absent resolved show ?thesis by blast
qed

theorem diagnostics_reported_only_when_absent_witness:
  "(''land'' = ''land'' \<or> ''land'' = ''sea'') \<and>
   get_land_fraction sample_load (heap sample_world 0)
     [(''sftlf'', None), (''sftof'', Some ''sftof.nc'')] =
     ([''sftof.nc''],
      Inr (Some \<lparr>shape = [2, 3], dtype = Float64,
                 elems = [1, 9 / 10, 4 / 5, 7 / 10, 3 / 5, 0]\<rparr>,
           [''File for 'sftlf' not found.''])) \<and>
   broadcastable_to [2, 3] [2, 3] \<and>
   snd (weighting_landsea_fraction sample_load sample_world 0
          [(''sftlf'', None), (''sftof'', Some ''sftof.nc'')] ''land'' True) = Inr 0 \<and>
   debug_log (fst (weighting_landsea_fraction sample_load sample_world 0
          [(''sftlf'', None), (''sftof'', Some ''sftof.nc'')] ''land'' True)) = [] \<and>
   get_land_fraction sample_load (heap sample_world 0)
     [(''sftlf'', None), (''sftof'', Some ''four.nc'')] =
     ([''four.nc''],
      Inr (None, [''File for 'sftlf' not found.'',
                  ''Cube 'sftof' with shape (4,) not broadcastable to cube 'gpp' with shape (2, 3).''])) \<and>
   snd (weighting_landsea_fraction sample_load sample_world 0
          [(''sftlf'', None), (''sftof'', Some ''four.nc'')] ''land'' True) =
     Inl (ValueError
       ''Weighting with land/sea fraction is not possible, the following errors occured: File for 'sftlf' not found. Cube 'sftof' with shape (4,) not broadcastable to cube 'gpp' with shape (2, 3).'')"
proof -
  let ?lf = "\<lparr>shape = [2, 3], dtype = Float64,
               elems = [1, 9 / 10, 4 / 5, 7 / 10, 3 / 5, 0 :: rat]\<rparr>"
  have area: "''land'' = ''land'' \<or> ''land'' = ''sea''" by simp
  have glf: "get_land_fraction sample_load (heap sample_world 0)
     [(''sftlf'', None), (''sftof'', Some ''sftof.nc'')] =
     ([''sftof.nc''], Inr (Some ?lf, [''File for 'sftlf' not found.'']))"
    by code_simp
  have glf2: "get_land_fraction sample_load (heap sample_world 0)
     [(''sftlf'', None), (''sftof'', Some ''four.nc'')] =
     ([''four.nc''],
      Inr (None, [''File for 'sftlf' not found.'',
                  ''Cube 'sftof' with shape (4,) not broadcastable to cube 'gpp' with shape (2, 3).'']))"
    by code_simp
  have empty: "debug_log sample_world = []" by (simp add: sample_world_def)
  have fits: "broadcastable_to [2, 3] [2, 3]"
    by (simp add: broadcastable_to_def stretches_to_def)
  have fits': "broadcastable_to (shape ?lf) (shape (core_data (heap sample_world 0)))"
    using fits by (simp add: sample_world_def core_data_def)
  from diagnostics_reported_only_when_absent
    [OF area, of sample_load sample_world 0 "[(''sftlf'', None), (''sftof'', Some ''sftof.nc'')]" True]
    glf empty fits'
  have a: "snd (weighting_landsea_fraction sample_load sample_world 0
          [(''sftlf'', None), (''sftof'', Some ''sftof.nc'')] ''land'' True) = Inr 0 \<and>
      debug_log (fst (weighting_landsea_fraction sample_load sample_world 0
          [(''sftlf'', None), (''sftof'', Some ''sftof.nc'')] ''land'' True)) = []"
    by simp
  from diagnostics_reported_only_when_absent
    [OF area, of sample_load sample_world 0 "[(''sftlf'', None), (''sftof'', Some ''four.nc'')]" True] glf2
  have b: "snd (weighting_landsea_fraction sample_load sample_world 0
          [(''sftlf'', None), (''sftof'', Some ''four.nc'')] ''land'' True) =
     Inl (ValueError
       ''Weighting with land/sea fraction is not possible, the following errors occured: File for 'sftlf' not found. Cube 'sftof' with shape (4,) not broadcastable to cube 'gpp' with shape (2, 3).'')"
    by simp
  from area glf glf2 fits a b show ?thesis by blast
qed

section \<open>What the weighting computes\<close>

text \<open>
  C1. When a weighting is applied with a fraction that can be stretched to the
  shape of the cube, the fraction comes from an entry of the mapping whose
  path loaded: it is the data divided by 100 for \<open>sftlf\<close> and one minus that
  for \<open>sftof\<close>. The call returns the reference, the cube keeps its name and
  its shape, and each element of its new data is the element of the old data
  times the element of the fraction for \<open>land\<close>, times one minus it for
  \<open>sea\<close>, the fraction read at the index of the element. For equal shapes
  that is position by position.
\<close>

theorem weighting_applies_fraction:
  assumes area: "area_type = ''land'' \<or> area_type = ''sea''"
    and res: "get_land_fraction load (heap w r) fx_files = (loads, Inr (Some lf, errors))"
    and wf: "wf_array lf"
    and fits: "broadcastable_to (shape lf) (shape (core_data (heap w r)))"
  shows "(\<exists>fx_var path fx_cube.
            (fx_var, Some path) \<in> set fx_files \<and> load path = Some fx_cube \<and>
            (fx_var = ''sftlf'' \<and> lf = true_divide_scalar (core_data fx_cube) 100 \<or>
             fx_var = ''sftof'' \<and>
               lf = scalar_subtract 1 (true_divide_scalar (core_data fx_cube) 100))) \<and>
         (\<exists>w'.
            weighting_landsea_fraction load w r fx_files area_type strict = (w', Inr r) \<and>
            var_name (heap w' r) = var_name (heap w r) \<and>
            shape (data (heap w' r)) = shape (core_data (heap w r)) \<and>
            length (elems (data (heap w' r))) = prod_list (shape (core_data (heap w r))) \<and>
            (\<forall>k < prod_list (shape (core_data (heap w r))).
               elems (data (heap w' r)) ! k =
               elems (core_data (heap w r)) ! k *
               (if area_type = ''land''
                then item lf (unravel (shape (core_data (heap w r))) k)
                else 1 - item lf (unravel (shape (core_data (heap w r))) k))) \<and>
            (shape lf = shape (core_data (heap w r)) \<longrightarrow>
               (\<forall>k < prod_list (shape (core_data (heap w r))).
                  elems (data (heap w' r)) ! k =
                  elems (core_data (heap w r)) ! k *
                  (if area_type = ''land'' then elems lf ! k else 1 - elems lf ! k))))"
proof -
  let ?cd = "core_data (heap w r)"
  let ?s = "shape ?cd"
  let ?wt = "if area_type = ''land'' then lf else scalar_subtract 1 lf"
  have winner: "\<exists>fx_var path fx_cube.
            (fx_var, Some path) \<in> set fx_files \<and> load path = Some fx_cube \<and>
            (fx_var = ''sftlf'' \<and> lf = true_divide_scalar (core_data fx_cube) 100 \<or>
             fx_var = ''sftof'' \<and>
               lf = scalar_subtract 1 (true_divide_scalar (core_data fx_cube) 100))"
  proof -
    from res obtain fx_var path fx_cube where
      "(fx_var, Some path) \<in> set fx_files" "load path = Some fx_cube"
      "fx_var = ''sftlf'' \<and> lf = true_divide_scalar (core_data fx_cube) 100 \<or>
       fx_var = ''sftof'' \<and>
         lf = scalar_subtract 1 (true_divide_scalar (core_data fx_cube) 100)"
      by (rule resolved_winner)
    then show ?thesis by (intro exI [of _ fx_var] exI [of _ path] exI [of _ fx_cube] conjI)
  qed
  obtain d where d: "d = \<lparr>shape = ?s, dtype = promote (dtype ?cd) (dtype lf),
          elems = map (\<lambda>k. item ?cd (unravel ?s k) * item ?wt (unravel ?s k))
                    [0..<prod_list ?s]\<rparr>"
    and call: "weighting_landsea_fraction load w r fx_files area_type strict =
       (w\<lparr>loaded := loaded w @ loads,
          heap := (heap w)(r := (heap w r)\<lparr>data := d\<rparr>)\<rparr>, Inr r)"
    by (rule weighting_stretched_returns [OF area res fits, of strict])
  let ?w' = "w\<lparr>loaded := loaded w @ loads, heap := (heap w)(r := (heap w r)\<lparr>data := d\<rparr>)\<rparr>"
  have new: "data (heap ?w' r) = d" and name: "var_name (heap ?w' r) = var_name (heap w r)"
    by simp_all
  have shape_d: "shape d = ?s" and len_d: "length (elems d) = prod_list ?s"
    by (simp_all add: d)
  have s: "broadcast_shapes ?s (shape lf) = Some ?s"
    using fits by (rule broadcast_shapes_stretched)
  have prod: "elems d ! k = elems ?cd ! k * item ?wt (unravel ?s k)"
    if "k < prod_list ?s" for k
    using that item_same_shape [of k ?cd] by (simp add: d)
  have wt: "item ?wt (unravel ?s k) =
            (if area_type = ''land'' then item lf (unravel ?s k) else 1 - item lf (unravel ?s k))"
    if "k < prod_list ?s" for k
  proof (cases "area_type = ''land''")
    case True
    then show ?thesis by simp
  next
    case False
    then show ?thesis using item_scalar_subtract [OF wf s that, of 1] by simp
  qed
  have elementwise: "\<forall>k < prod_list ?s.
               elems d ! k =
               elems ?cd ! k *
               (if area_type = ''land'' then item lf (unravel ?s k)
                else 1 - item lf (unravel ?s k))"
  proof (intro allI impI)
    fix k assume k: "k < prod_list ?s"
    show "elems d ! k =
               elems ?cd ! k *
               (if area_type = ''land'' then item lf (unravel ?s k)
                else 1 - item lf (unravel ?s k))"
      unfolding prod [OF k] wt [OF k] by (rule refl)
  qed
  have same: "shape lf = ?s \<longrightarrow>
               (\<forall>k < prod_list ?s.
                  elems d ! k =
                  elems ?cd ! k *
                  (if area_type = ''land'' then elems lf ! k else 1 - elems lf ! k))"
  proof (intro allI impI)
    fix k assume eq: "shape lf = ?s" and k: "k < prod_list ?s"
    have b: "item lf (unravel ?s k) = elems lf ! k"
      using k item_same_shape [of k lf] unfolding eq by simp
    from elementwise k have "elems d ! k =
               elems ?cd ! k *
               (if area_type = ''land'' then item lf (unravel ?s k)
                else 1 - item lf (unravel ?s k))" by blast
    then show "elems d ! k =
                  elems ?cd ! k *
                  (if area_type = ''land'' then elems lf ! k else 1 - elems lf ! k)"
      unfolding b .
  qed
  show ?thesis
  proof (rule conjI)
    show "\<exists>fx_var path fx_cube.
            (fx_var, Some path) \<in> set fx_files \<and> load path = Some fx_cube \<and>
            (fx_var = ''sftlf'' \<and> lf = true_divide_scalar (core_data fx_cube) 100 \<or>
             fx_var = ''sftof'' \<and>
               lf = scalar_subtract 1 (true_divide_scalar (core_data fx_cube) 100))"
      by (rule winner)
  next
    show "\<exists>w'.
            weighting_landsea_fraction load w r fx_files area_type strict = (w', Inr r) \<and>
            var_name (heap w' r) = var_name (heap w r) \<and>
            shape (data (heap w' r)) = ?s \<and>
            length (elems (data (heap w' r))) = prod_list ?s \<and>
            (\<forall>k < prod_list ?s.
               elems (data (heap w' r)) ! k =
               elems ?cd ! k *
               (if area_type = ''land'' then item lf (unravel ?s k)
                else 1 - item lf (unravel ?s k))) \<and>
            (shape lf = ?s \<longrightarrow>
               (\<forall>k < prod_list ?s.
                  elems (data (heap w' r)) ! k =
                  elems ?cd ! k *
                  (if area_type = ''land'' then elems lf ! k else 1 - elems lf ! k)))"
      apply (rule exI [of _ ?w'])
      unfolding new
      using call name shape_d len_d elementwise same
      by (intro conjI)
  qed
qed

theorem weighting_applies_fraction_witness:
  "(''sea'' = ''land'' \<or> ''sea'' = ''sea'') \<and>
   get_land_fraction sample_load (heap sample_world 0) [(''sftof'', Some ''sftof.nc'')] =
     ([''sftof.nc''],
      Inr (Some \<lparr>shape = [2, 3], dtype = Float64,
                 elems = [1, 9 / 10, 4 / 5, 7 / 10, 3 / 5, 0]\<rparr>, [])) \<and>
   wf_array \<lparr>shape = [2, 3], dtype = Float64, elems = [1, 9 / 10, 4 / 5, 7 / 10, 3 / 5, 0]\<rparr> \<and>
   broadcastable_to [2, 3] [2, 3] \<and>
   snd (weighting_landsea_fraction sample_load sample_world 0
          [(''sftof'', Some ''sftof.nc'')] ''sea'' True) = Inr 0 \<and>
   shape (data (heap (fst (weighting_landsea_fraction sample_load sample_world 0
          [(''sftof'', Some ''sftof.nc'')] ''sea'' True)) 0)) = [2, 3] \<and>
   elems (data (heap (fst (weighting_landsea_fraction sample_load sample_world 0
          [(''sftof'', Some ''sftof.nc'')] ''sea'' True)) 0)) ! 4 = 2"
proof -
  let ?lf = "\<lparr>shape = [2, 3], dtype = Float64,
               elems = [1, 9 / 10, 4 / 5, 7 / 10, 3 / 5, 0 :: rat]\<rparr>"
  let ?call = "weighting_landsea_fraction sample_load sample_world 0
          [(''sftof'', Some ''sftof.nc'')] ''sea'' True"
  have area: "''sea'' = ''land'' \<or> ''sea'' = ''sea''" by simp
  have glf: "get_land_fraction sample_load (heap sample_world 0)
               [(''sftof'', Some ''sftof.nc'')] = ([''sftof.nc''], Inr (Some ?lf, []))"
    by code_simp
  have wf: "wf_array ?lf" by (simp add: wf_array_def)
  have cd: "core_data (heap sample_world 0) =
            \<lparr>shape = [2, 3], dtype = Float64, elems = [1, 2, 3, 4, 5, 6]\<rparr>"
    by (simp add: sample_world_def core_data_def)
  have fits: "broadcastable_to [2, 3] [2, 3]"
    by (simp add: broadcastable_to_def stretches_to_def)
  have fits': "broadcastable_to (shape ?lf) (shape (core_data (heap sample_world 0)))"
    using fits by (simp add: cd)
  from weighting_applies_fraction [OF area glf wf fits', of True]
  obtain w' where call: "?call = (w', Inr 0)"
    and sh: "shape (data (heap w' 0)) = shape (core_data (heap sample_world 0))"
    and same: "shape ?lf = shape (core_data (heap sample_world 0)) \<longrightarrow>
               (\<forall>k < prod_list (shape (core_data (heap sample_world 0))).
                  elems (data (heap w' 0)) ! k =
                  elems (core_data (heap sample_world 0)) ! k *
                  (if ''sea'' = ''land'' then elems ?lf ! k else 1 - elems ?lf ! k))"
    by blast
  have "(4::nat) < prod_list (shape (core_data (heap sample_world 0)))" by (simp add: cd)
  with same have "elems (data (heap w' 0)) ! 4 = 2" by (simp add: cd)
  with call sh area glf wf fits show ?thesis by (simp add: cd)
qed

section \<open>The sum of both weightings\<close>

lemma np_add_same_shape:
  assumes "shape a = s" and "shape b = s"
  shows "np_add a b =
         Inr \<lparr>shape = s, dtype = promote (dtype a) (dtype b),
              elems = map (\<lambda>k. elems a ! k + elems b ! k) [0..<prod_list s]\<rparr>"
proof -
  have "map (\<lambda>k. item a (unravel s k) + item b (unravel s k)) [0..<prod_list s] =
        map (\<lambda>k. elems a ! k + elems b ! k) [0..<prod_list s]"
    using item_same_shape [of _ a] item_same_shape [of _ b] assms
    by (intro map_cong) simp_all
  then show ?thesis
    using assms by (simp add: np_add_def np_binary_def broadcast_shapes_same)
qed

text \<open>
  C9. For the same cube and the same resolved fraction, one that can be
  stretched to the shape of the cube, the data of the \<open>land\<close> call and the data
  of the \<open>sea\<close> call add up to an array with the shape and the elements of the
  data before the calls. Elements are exact rationals.
\<close>

theorem land_and_sea_results_add_up:
  assumes res: "get_land_fraction load (heap w r) fx_files = (loads, Inr (Some lf, errors))"
    and wf: "wf_array lf"
    and wf_cd: "wf_array (core_data (heap w r))"
    and fits: "broadcastable_to (shape lf) (shape (core_data (heap w r)))"
  shows "\<exists>wl ws total.
           weighting_landsea_fraction load w r fx_files ''land'' strict = (wl, Inr r) \<and>
           weighting_landsea_fraction load w r fx_files ''sea'' strict = (ws, Inr r) \<and>
           np_add (data (heap wl r)) (data (heap ws r)) = Inr total \<and>
           shape total = shape (core_data (heap w r)) \<and>
           elems total = elems (core_data (heap w r))"
proof -
  let ?cd = "core_data (heap w r)"
  let ?s = "shape ?cd"
  have land: "''land'' = ''land'' \<or> ''land'' = ''sea''"
    and sea: "''sea'' = ''land'' \<or> ''sea'' = ''sea''" by simp_all
  obtain dl where dl: "dl = \<lparr>shape = ?s, dtype = promote (dtype ?cd) (dtype lf),
          elems = map (\<lambda>k. item ?cd (unravel ?s k) *
                           item (if ''land'' = ''land'' then lf else scalar_subtract 1 lf)
                             (unravel ?s k))
                    [0..<prod_list ?s]\<rparr>"
    and call_l: "weighting_landsea_fraction load w r fx_files ''land'' strict =
       (w\<lparr>loaded := loaded w @ loads,
          heap := (heap w)(r := (heap w r)\<lparr>data := dl\<rparr>)\<rparr>, Inr r)"
    by (rule weighting_stretched_returns [OF land res fits, of strict])
  obtain ds where ds: "ds = \<lparr>shape = ?s, dtype = promote (dtype ?cd) (dtype lf),
          elems = map (\<lambda>k. item ?cd (unravel ?s k) *
                           item (if ''sea'' = ''land'' then lf else scalar_subtract 1 lf)
                             (unravel ?s k))
                    [0..<prod_list ?s]\<rparr>"
    and call_s: "weighting_landsea_fraction load w r fx_files ''sea'' strict =
       (w\<lparr>loaded := loaded w @ loads,
          heap := (heap w)(r := (heap w r)\<lparr>data := ds\<rparr>)\<rparr>, Inr r)"
    by (rule weighting_stretched_returns [OF sea res fits, of strict])
  let ?wl = "w\<lparr>loaded := loaded w @ loads, heap := (heap w)(r := (heap w r)\<lparr>data := dl\<rparr>)\<rparr>"
  let ?ws = "w\<lparr>loaded := loaded w @ loads, heap := (heap w)(r := (heap w r)\<lparr>data := ds\<rparr>)\<rparr>"
  have new_l: "data (heap ?wl r) = dl" and new_s: "data (heap ?ws r) = ds"
    by simp_all
  have s: "broadcast_shapes ?s (shape lf) = Some ?s"
    using fits by (rule broadcast_shapes_stretched)
  have el: "elems dl ! k = elems ?cd ! k * item lf (unravel ?s k)"
    if "k < prod_list ?s" for k
    using that item_same_shape [of k ?cd] by (simp add: dl)
  have es: "elems ds ! k = elems ?cd ! k * (1 - item lf (unravel ?s k))"
    if "k < prod_list ?s" for k
    using that item_same_shape [of k ?cd] item_scalar_subtract [OF wf s that, of 1]
    by (simp add: ds)
  let ?total = "\<lparr>shape = ?s, dtype = promote (dtype dl) (dtype ds),
              elems = map (\<lambda>k. elems dl ! k + elems ds ! k) [0..<prod_list ?s]\<rparr>"
  have add: "np_add dl ds = Inr ?total"
    by (rule np_add_same_shape) (simp_all add: dl ds)
  have "map (\<lambda>k. elems dl ! k + elems ds ! k) [0..<prod_list ?s] = elems ?cd"
  proof (rule nth_equalityI)
    show "length (map (\<lambda>k. elems dl ! k + elems ds ! k) [0..<prod_list ?s]) = length (elems ?cd)"
      using wf_cd by (simp add: wf_array_def)
  next
    fix k assume "k < length (map (\<lambda>k. elems dl ! k + elems ds ! k) [0..<prod_list ?s])"
    then have k: "k < prod_list ?s" by simp
    have "elems dl ! k + elems ds ! k = elems ?cd ! k"
      unfolding el [OF k] es [OF k] by (simp add: algebra_simps)
    with k show "map (\<lambda>k. elems dl ! k + elems ds ! k) [0..<prod_list ?s] ! k = elems ?cd ! k"
      by simp
  qed
  then have total_elems: "elems ?total = elems ?cd" by simp
  have sh: "shape ?total = ?s" by simp
  show ?thesis
    apply (rule exI [of _ ?wl])
    apply (rule exI [of _ ?ws])
    apply (rule exI [of _ ?total])
    unfolding new_l new_s
    using call_l call_s add sh total_elems
    by (intro conjI)
qed

theorem land_and_sea_results_add_up_witness:
  "get_land_fraction sample_load (heap sample_world 0) [(''sftlf'', Some ''sftlf.nc'')] =
     ([''sftlf.nc''], Inr (Some \<lparr>shape = [1, 1], dtype = Float64, elems = [1 / 2]\<rparr>, [])) \<and>
   wf_array \<lparr>shape = [1, 1], dtype = Float64, elems = [1 / 2]\<rparr> \<and>
   wf_array (core_data (heap sample_world 0)) \<and>
   broadcastable_to [1, 1] [2, 3] \<and>
   (\<exists>total.
      np_add
        (data (heap (fst (weighting_landsea_fraction sample_load sample_world 0
                            [(''sftlf'', Some ''sftlf.nc'')] ''land'' True)) 0))
        (data (heap (fst (weighting_landsea_fraction sample_load sample_world 0
                            [(''sftlf'', Some ''sftlf.nc'')] ''sea'' True)) 0)) = Inr total \<and>
      shape total = [2, 3] \<and> elems total = [1, 2, 3, 4, 5, 6])"
proof -
  let ?lf = "\<lparr>shape = [1, 1], dtype = Float64, elems = [1 / 2 :: rat]\<rparr>"
  have glf: "get_land_fraction sample_load (heap sample_world 0)
               [(''sftlf'', Some ''sftlf.nc'')] = ([''sftlf.nc''], Inr (Some ?lf, []))"
    by code_simp
  have wf: "wf_array ?lf" by (simp add: wf_array_def)
  have cd: "core_data (heap sample_world 0) =
            \<lparr>shape = [2, 3], dtype = Float64, elems = [1, 2, 3, 4, 5, 6]\<rparr>"
    by (simp add: sample_world_def core_data_def)
  have fits: "broadcastable_to [1, 1] [2, 3]"
    by (simp add: broadcastable_to_def stretches_to_def)
  have fits': "broadcastable_to (shape ?lf) (shape (core_data (heap sample_world 0)))"
    using fits by (simp add: cd)
  have wf_cd: "wf_array (core_data (heap sample_world 0))"
    by (simp add: cd wf_array_def)
  from land_and_sea_results_add_up [OF glf wf wf_cd fits', of True]
  obtain wl ws total where
    "weighting_landsea_fraction sample_load sample_world 0
       [(''sftlf'', Some ''sftlf.nc'')] ''land'' True = (wl, Inr 0)"
    "weighting_landsea_fraction sample_load sample_world 0
       [(''sftlf'', Some ''sftlf.nc'')] ''sea'' True = (ws, Inr 0)"
    "np_add (data (heap wl 0)) (data (heap ws 0)) = Inr total"
    "shape total = shape (core_data (heap sample_world 0))"
    "elems total = elems (core_data (heap sample_world 0))"
    by blast
  with fits wf_cd glf wf show ?thesis by (simp add: cd)
qed

section \<open>Shape and element type of the result\<close>



text \<open>
  The one reshape that the assignment lets through: a cube without dimensions
  takes an array of shape \<open>(1,)\<close>.
\<close>

lemma scalar_cube_takes_length_one_array:
  "cube_shape (heap w r) = [] \<Longrightarrow> shape d = [1] \<Longrightarrow>
   \<exists>w'. set_data w r d = Inr w' \<and> cube_shape (heap w' r) = [1]"
  by (simp add: set_data_def cube_shape_def)



end
